theory Spec2Isabelle
  imports Complex_Main
begin

section \<open>Video ingestion: the data model\<close>

text \<open>
  Modelled from the spec: the declaration of the status type (models/video.go) is not
  among the sources; the controller only names \<open>models.UPLOADING\<close>, \<open>models.PROCESSING\<close>
  and \<open>models.COMPLETE\<close> and compares them with \<open><\<close> and \<open>>\<close>. The spec gives the four
  values and their order: EMPTY, UPLOADING, PROCESSING, COMPLETE.
\<close>

datatype VideoStatus = EMPTY | UPLOADING | PROCESSING | COMPLETE

fun status_rank :: "VideoStatus \<Rightarrow> nat" where
  "status_rank EMPTY = 0"
| "status_rank UPLOADING = 1"
| "status_rank PROCESSING = 2"
| "status_rank COMPLETE = 3"

datatype Visibility = PRIVATE | UNLISTED | PUBLIC

text \<open>
  The fields of \<open>models.Video\<close> that the controller reads and writes; \<open>Id'\<close> is the
  field \<open>Id\<close>. \<open>DurationSecs\<close> is an int32 and \<open>SizeBytes\<close> an int64 in the source; both
  are kept as integers here and their ranges are stated where a result depends on them.
\<close>

record Video =
  Id' :: int
  CreatorId :: int
  Name :: string
  Description :: string
  Visibility :: Visibility
  Status :: VideoStatus
  MimeType :: string
  DurationSecs :: int
  SizeBytes :: int

text \<open>
  The error constants the handlers report, and the shape of a response. The two
  validation messages of \<open>StillWatching\<close>, "You need to watch another %dms." and "You need
  to stream another %d bytes.", are kept by the number they carry.
\<close>

datatype ApiError =
    errVideoCannotOverwrite
  | errGenericFileIo
  | errVideoInvalidFormat
  | errVideoProbe
  | errVideoGetSize
  | errVideoGenerateThumbnail
  | errVideoViewAlreadyCounted
  | errVideoProcessStillWatching

datatype ValidationMessage =
    NeedWatchAnotherMs int
  | NeedStreamAnotherBytes int

datatype Response =
    StatusNoContent
  | UserError ApiError
  | ServerError ApiError
  | ValidationError ValidationMessage

section \<open>Video ingestion: the upload handler\<close>

text \<open>
  What the outside world answers during one call of \<open>UploadVideo\<close>: whether each file
  operation succeeds, what \<open>codec.Probe\<close> returns, what \<open>os.Stat\<close> reports as size, and
  whether \<open>codec.GenerateThumbnail\<close> succeeds.
\<close>

datatype ProbeResult =
    ProbeOk string int
  | ErrInvalidVideoType
  | ProbeOtherError

record UploadEnv =
  mkdir_ok :: bool
  create_ok :: bool
  copy_ok :: bool
  close_ok :: bool
  probe_result :: ProbeResult
  stat_result :: "int option"
  thumbnail_ok :: bool

text \<open>The external calls of the handler, in the order they are made.\<close>

datatype Call =
    CallMkdirAll
  | CallCreate
  | CallCopy
  | CallClose
  | CallRemove
  | CallProbe
  | CallStat
  | CallGenerateThumbnail
  | CallSave

text \<open>
  The state one call works on: the in-memory \<open>*models.Video\<close> the middleware put in the
  context, the database row of that video, the media file and the thumbnail on disk, the
  response written so far, the status values assigned during the call, and the external
  calls made.
\<close>

record UploadState =
  video :: Video
  stored :: Video
  file_exists :: bool
  thumbnail_exists :: bool
  response :: "Response option"
  assigned :: "VideoStatus list"
  calls :: "Call list"

text \<open>
  Modelled from the spec: the helpers \<open>userError\<close>, \<open>serverError\<close> and \<open>checkServerError\<close>
  of the controllers package are not among the sources. The spec has user errors and
  server errors reported to the caller as typed results: each helper writes its error
  constant as the response, \<open>checkServerError\<close> when the error it is given is not nil.
\<close>

definition userError :: "ApiError \<Rightarrow> UploadState \<Rightarrow> UploadState" where
  "userError e st = st\<lparr>response := Some (UserError e)\<rparr>"

definition serverError :: "ApiError \<Rightarrow> UploadState \<Rightarrow> UploadState" where
  "serverError e st = st\<lparr>response := Some (ServerError e)\<rparr>"

definition called :: "Call \<Rightarrow> UploadState \<Rightarrow> UploadState" where
  "called c st = st\<lparr>calls := calls st @ [c]\<rparr>"

text \<open>\<open>video.Status = s\<close>: an assignment to the in-memory record.\<close>

definition set_status :: "VideoStatus \<Rightarrow> UploadState \<Rightarrow> UploadState" where
  "set_status s st =
     st\<lparr>video := (video st)\<lparr>Status := s\<rparr>, assigned := assigned st @ [s]\<rparr>"

text \<open>
  Modelled from the spec: \<open>Video.Save\<close> (models/video.go) is not among the sources. The
  handler defers it on the pointer \<open>video\<close> and discards its result. Like \<open>Watch.save\<close>
  (models/watch.go, line 94) it is taken to have a pointer receiver, so it writes the
  in-memory record, as it is when the handler returns, to the video's database row: the
  spec has the status set last persisted on every exit path.
\<close>

definition Save :: "UploadState \<Rightarrow> UploadState" where
  "Save st = (called CallSave st)\<lparr>stored := video st\<rparr>"

text \<open>\<open>os.Remove(filepath)\<close>; the handler discards its result.\<close>

definition Remove :: "UploadState \<Rightarrow> UploadState" where
  "Remove st = (called CallRemove st)\<lparr>file_exists := False\<rparr>"

text \<open>
  Lines 138 to 200 of the handler: everything after \<open>defer video.Save()\<close>. Each early
  \<open>return\<close> of the source is one branch.
\<close>

definition upload_body :: "UploadEnv \<Rightarrow> UploadState \<Rightarrow> UploadState" where
  "upload_body env st0 =
    (let st1 = called CallMkdirAll st0 in
     if \<not> mkdir_ok env then serverError errGenericFileIo st1
     else
     let st2 = called CallCreate st1 in
     if \<not> create_ok env then serverError errGenericFileIo st2
     else
     let st3 = called CallCopy (st2\<lparr>file_exists := True\<rparr>) in
     if \<not> copy_ok env
     then Remove (called CallClose (serverError errGenericFileIo st3))
     else
     let st4 = called CallClose st3 in
     if \<not> close_ok env then Remove (serverError errGenericFileIo st4)
     else
     let st5 = called CallProbe st4 in
     (case probe_result env of
        ErrInvalidVideoType \<Rightarrow> userError errVideoInvalidFormat (Remove st5)
      | ProbeOtherError \<Rightarrow> serverError errVideoProbe (Remove st5)
      | ProbeOk mime dur \<Rightarrow>
         (let st6 = called CallStat st5 in
          case stat_result env of
            None \<Rightarrow> serverError errVideoGetSize st6
          | Some sz \<Rightarrow>
             (let st7 = set_status PROCESSING
                          (st6\<lparr>video := (video st6)
                                 \<lparr>MimeType := mime, DurationSecs := dur, SizeBytes := sz\<rparr>\<rparr>);
                  st8 = called CallGenerateThumbnail st7
              in if \<not> thumbnail_ok env
                 then serverError errVideoGenerateThumbnail st8
                 else (set_status COMPLETE (st8\<lparr>thumbnail_exists := True\<rparr>))
                        \<lparr>response := Some StatusNoContent\<rparr>))))"

text \<open>
  \<open>UploadVideo\<close>, lines 127 to 201. The guard of line 130 returns before the status is
  assigned and before \<open>Save\<close> is deferred; past it, \<open>Save\<close> runs when the body returns.
\<close>

definition UploadVideo :: "UploadEnv \<Rightarrow> UploadState \<Rightarrow> UploadState" where
  "UploadVideo env st =
    (if status_rank (Status (video st)) > status_rank UPLOADING
     then userError errVideoCannotOverwrite st
     else Save (upload_body env (set_status UPLOADING st)))"

text \<open>The call was turned away by the guard of line 130: the overwrite error is the response.\<close>

definition rejected :: "UploadState \<Rightarrow> bool" where
  "rejected st \<longleftrightarrow> response st = Some (UserError errVideoCannotOverwrite)"

section \<open>Watch integrity: float64 arithmetic\<close>

text \<open>
  \<open>calculateWatchConditions\<close> computes in float64. A float64 value is modelled by the
  rational number it denotes, and every operation that rounds is written as the exact
  operation followed by \<open>round64\<close>: round to nearest, ties to even, with a significand of
  53 bits. Infinities, NaN, signed zeros and subnormal numbers are not modelled: the
  operands of \<open>calculateWatchConditions\<close> are converted from int64 and int32, so every
  value has magnitude below \<open>2^65\<close> and every nonzero one is at least \<open>1/2\<close>.
\<close>

function log2_floor :: "int \<Rightarrow> nat" where
  "log2_floor n = (if n < 2 then 0 else Suc (log2_floor (n div 2)))"
  by pat_completeness auto

termination
  by (relation "measure nat") auto

declare log2_floor.simps [simp del]

text \<open>The binary exponent of a nonzero rational: \<open>2^e \<le> |x| < 2^(e+1)\<close>.\<close>

definition exponent :: "rat \<Rightarrow> int" where
  "exponent x =
     (if 1 \<le> \<bar>x\<bar> then int (log2_floor \<lfloor>\<bar>x\<bar>\<rfloor>)
      else - (int (log2_floor (\<lceil>1 / \<bar>x\<bar>\<rceil> - 1)) + 1))"

text \<open>The distance between neighbouring float64 values at the magnitude of \<open>x\<close>.\<close>

definition ulp :: "rat \<Rightarrow> rat" where
  "ulp x = 2 powi (exponent x - 52)"

definition round_half_even :: "rat \<Rightarrow> int" where
  "round_half_even r =
     (let f = \<lfloor>r\<rfloor>; d = r - of_int f
      in if d < 1 / 2 then f else if 1 / 2 < d then f + 1 else if even f then f else f + 1)"

definition round64 :: "rat \<Rightarrow> rat" where
  "round64 x = (if x = 0 then 0 else of_int (round_half_even (x / ulp x)) * ulp x)"

text \<open>The values a float64 can hold (exponent range aside).\<close>

definition representable :: "rat \<Rightarrow> bool" where
  "representable y \<longleftrightarrow> (\<exists>m k::int. \<bar>m\<bar> < 2 ^ 53 \<and> y = of_int m * 2 powi k)"

text \<open>The conversion \<open>float64(i)\<close> of an integer, and the float64 operators \<open>*\<close> and \<open>-\<close>.\<close>

definition float64 :: "int \<Rightarrow> rat" where
  "float64 i = round64 (of_int i)"

definition fmul :: "rat \<Rightarrow> rat \<Rightarrow> rat" where
  "fmul a b = round64 (a * b)"

definition fsub :: "rat \<Rightarrow> rat \<Rightarrow> rat" where
  "fsub a b = round64 (a - b)"

text \<open>\<open>math.Ceil\<close> and \<open>math.Max\<close> are exact.\<close>

definition math_Ceil :: "rat \<Rightarrow> rat" where
  "math_Ceil x = of_int \<lceil>x\<rceil>"

definition math_Max :: "rat \<Rightarrow> rat \<Rightarrow> rat" where
  "math_Max a b = (if a < b then b else a)"

text \<open>
  The conversions \<open>uint64(f)\<close> and \<open>time.Duration(f)\<close> of a float64 discard the fraction.
  Go leaves the result to the implementation when the value is outside the target type;
  \<open>calculateWatchConditions\<close> never gets there (lemmas \<open>remaining_bytes_in_range\<close> and
  \<open>remaining_time_in_range\<close> below), so the integer is returned as it is.
\<close>

definition to_integer :: "rat \<Rightarrow> int" where
  "to_integer x = (if 0 \<le> x then \<lfloor>x\<rfloor> else \<lceil>x\<rceil>)"

text \<open>int64 arithmetic wraps around; \<open>/\<close> on integers truncates towards zero.\<close>

definition wrap_int64 :: "int \<Rightarrow> int" where
  "wrap_int64 n = (n + 2 ^ 63) mod 2 ^ 64 - 2 ^ 63"

definition go_div :: "int \<Rightarrow> int \<Rightarrow> int" where
  "go_div a b = sgn a * sgn b * (\<bar>a\<bar> div \<bar>b\<bar>)"

section \<open>Watch integrity: time\<close>

text \<open>
  A \<open>time.Time\<close> is modelled by its number of nanoseconds since the epoch, a
  \<open>time.Duration\<close> by its int64 count of nanoseconds. \<open>time.Since(t)\<close> is \<open>Now().Sub(t)\<close>,
  which returns the largest or smallest duration when the difference does not fit.
\<close>

definition minDuration :: int where
  "minDuration = - (2 ^ 63)"

definition maxDuration :: int where
  "maxDuration = 2 ^ 63 - 1"

definition Millisecond :: int where
  "Millisecond = 1000000"

definition time_Since :: "int \<Rightarrow> int \<Rightarrow> int" where
  "time_Since now t = max minDuration (min maxDuration (now - t))"

definition Milliseconds :: "int \<Rightarrow> int" where
  "Milliseconds d = go_div d 1000000"

section \<open>Watch integrity: sessions\<close>

text \<open>models/watch.go, lines 11 to 24. \<open>BytesStreamed\<close> is a non-nil \<open>*int64\<close>.\<close>

record Watch =
  UserId :: int
  VideoId :: int
  ViewId :: int
  StartedAt :: int
  BytesStreamed :: int

definition WatchPercentageRequired :: rat where
  "WatchPercentageRequired = round64 (6 / 10)"

record WatchConditions =
  RemainingBytes :: int
  RemainingTime :: int

text \<open>
  \<open>calculateWatchConditions\<close>, models/watch.go lines 33 to 46, at the moment when
  \<open>time.Now()\<close> returns \<open>now\<close>.
\<close>

definition calculateWatchConditions :: "int \<Rightarrow> Watch \<Rightarrow> Video \<Rightarrow> WatchConditions" where
  "calculateWatchConditions now watch v =
    (let minimumBytes = math_Ceil (fmul (float64 (SizeBytes v)) WatchPercentageRequired);
         alreadyStreamedBytes = float64 (BytesStreamed watch);
         minimumWatchTimeMs =
           math_Ceil (fmul (fmul (float64 (DurationSecs v)) (round64 1000))
                           WatchPercentageRequired);
         alreadyWatchedMs = float64 (Milliseconds (time_Since now (StartedAt watch)))
     in \<lparr>RemainingBytes = to_integer (math_Max 0 (fsub minimumBytes alreadyStreamedBytes)),
         RemainingTime =
           wrap_int64 (to_integer (math_Max 0 (fsub minimumWatchTimeMs alreadyWatchedMs))
                       * Millisecond)\<rparr>)"

text \<open>
  The watch table, as the list of its rows, with \<open>UserId\<close> as primary key, and the
  identifier generator.

  Modelled from the spec: \<open>NewId\<close> (the snowflake generator of the models package) is not
  among the sources; the spec calls its identifiers globally unique and ordered in time,
  so it is a counter here.
\<close>

record WatchDb =
  watches :: "Watch list"
  next_id :: int

definition NewId :: "WatchDb \<Rightarrow> int \<times> WatchDb" where
  "NewId db = (next_id db, db\<lparr>next_id := next_id db + 1\<rparr>)"

datatype DbError = ErrDatabase

text \<open>The row with the least primary key: what a query without a condition finds first.\<close>

fun first_by_key :: "Watch list \<Rightarrow> Watch option" where
  "first_by_key [] = None"
| "first_by_key (w # ws) =
     (case first_by_key ws of
        None \<Rightarrow> Some w
      | Some w' \<Rightarrow> if UserId w \<le> UserId w' then Some w else Some w')"

text \<open>
  The query of \<open>db.Where(Watch{UserId: user.Id}).FirstOrCreate(watch)\<close>, line 50. gorm
  leaves the zero-valued fields of a struct condition out of the query. With a user
  identifier other than 0 the condition is \<open>user_id = ?\<close>; with the identifier 0 there is
  no condition at all, and the query, ordered by primary key, finds the first row of the
  table, whoever it belongs to.
\<close>

definition first_where_user :: "int \<Rightarrow> Watch list \<Rightarrow> Watch option" where
  "first_where_user user_id rows =
     (if user_id = 0 then first_by_key rows
      else find (\<lambda>w. UserId w = user_id) rows)"

text \<open>
  \<open>db.Save(watch)\<close>, line 95, for a row with a primary key other than 0: the row with
  that key is updated in all its fields, and inserted when there is none. With the
  primary key 0 gorm takes the row to be new and inserts it; \<open>watchFor\<close> only saves rows
  it has read from the table, so that insert meets the row it read and fails on the
  primary key.
\<close>

definition save_row :: "Watch \<Rightarrow> Watch list \<Rightarrow> Watch list" where
  "save_row w rows =
     (if list_ex (\<lambda>r. UserId r = UserId w) rows
      then map (\<lambda>r. if UserId r = UserId w then w else r) rows
      else rows @ [w])"

text \<open>
  What the outside world answers during one call of \<open>watchFor\<close>: the two readings of
  \<open>time.Now()\<close> (line 54 and line 67), and whether the query and the save fail.
\<close>

record WatchEnv =
  now_attrs :: int
  now_reset :: int
  first_or_create_fails :: bool
  save_fails :: bool

text \<open>
  \<open>watchFor\<close>, models/watch.go lines 48 to 77. The arguments of \<open>Attrs\<close> are evaluated
  before the query runs, so an identifier is drawn even when a row is found.
  \<open>FirstOrCreate\<close> returns the row the query finds, or inserts the condition's and the
  attributes' fields as a new row.
\<close>

definition watchFor :: "WatchEnv \<Rightarrow> int \<Rightarrow> Video \<Rightarrow> WatchDb \<Rightarrow> (DbError + Watch) \<times> WatchDb" where
  "watchFor env user_id v db =
    (let (id1, db1) = NewId db;
         attrs = \<lparr>UserId = user_id, VideoId = Id' v, ViewId = id1,
                  StartedAt = now_attrs env, BytesStreamed = 0\<rparr>
     in if first_or_create_fails env then (Inl ErrDatabase, db1)
        else
        let (watch, db2) =
              (case first_where_user user_id (watches db1) of
                 Some w \<Rightarrow> (w, db1)
               | None \<Rightarrow> (attrs, db1\<lparr>watches := watches db1 @ [attrs]\<rparr>))
        in if VideoId watch \<noteq> Id' v
           then
             let (id2, db3) = NewId db2;
                 watch' = watch\<lparr>VideoId := Id' v, ViewId := id2,
                                StartedAt := now_reset env, BytesStreamed := 0\<rparr>
             in if save_fails env \<or> UserId watch' = 0 then (Inl ErrDatabase, db3)
                else (Inr watch', db3\<lparr>watches := save_row watch' (watches db3)\<rparr>)
           else (Inr watch, db2))"

section \<open>Watch integrity: registering a view\<close>

text \<open>
  The result of \<open>Video.TryAddView\<close> as the handler \<open>StillWatching\<close> reads it
  (controllers/video.go, lines 380 to 389).
\<close>

datatype AddViewCode =
    ADD_VIEW_SUCCESS
  | ADD_VIEW_DUPLICATE
  | ADD_VIEW_TIME_NOT_PASSED
  | ADD_VIEW_VIDEO_NOT_STREAMED_ENOUGH

record AddViewResult =
  Code :: AddViewCode
  TimeLeftMs :: int
  BytesLeft :: int

text \<open>The ledger of counted views: the pairs of video and view identifier.\<close>

type_synonym ViewLedger = "(int \<times> int) set"

text \<open>
  Modelled from the spec: \<open>Video.TryAddView\<close> (models/video.go) is not among the sources.
  The spec's \<open>tryRegisterView\<close>: a ledger entry for the session's ViewId gives Duplicate
  and changes nothing; otherwise the remaining distance is computed and a positive
  remaining time gives TimeNotPassed, else positive remaining bytes give
  NotStreamedEnough, else the entry is inserted and the result is Success.
\<close>

definition TryAddView :: "int \<Rightarrow> Watch \<Rightarrow> Video \<Rightarrow> ViewLedger \<Rightarrow> AddViewResult \<times> ViewLedger" where
  "TryAddView now watch v ledger =
    (if (Id' v, ViewId watch) \<in> ledger
     then (\<lparr>Code = ADD_VIEW_DUPLICATE, TimeLeftMs = 0, BytesLeft = 0\<rparr>, ledger)
     else
     let conditions = calculateWatchConditions now watch v
     in if 0 < RemainingTime conditions
        then (\<lparr>Code = ADD_VIEW_TIME_NOT_PASSED,
               TimeLeftMs = Milliseconds (RemainingTime conditions), BytesLeft = 0\<rparr>, ledger)
        else if 0 < RemainingBytes conditions
        then (\<lparr>Code = ADD_VIEW_VIDEO_NOT_STREAMED_ENOUGH,
               TimeLeftMs = 0, BytesLeft = RemainingBytes conditions\<rparr>, ledger)
        else (\<lparr>Code = ADD_VIEW_SUCCESS, TimeLeftMs = 0, BytesLeft = 0\<rparr>,
              insert (Id' v, ViewId watch) ledger))"

text \<open>
  \<open>StillWatching\<close>, controllers/video.go lines 370 to 390: the response for what
  \<open>TryAddView\<close> returned.
\<close>

definition StillWatching :: "DbError + AddViewResult \<Rightarrow> Response" where
  "StillWatching r =
    (case r of
       Inl err \<Rightarrow> ServerError errVideoProcessStillWatching
     | Inr result \<Rightarrow>
        (case Code result of
           ADD_VIEW_SUCCESS \<Rightarrow> StatusNoContent
         | ADD_VIEW_DUPLICATE \<Rightarrow> UserError errVideoViewAlreadyCounted
         | ADD_VIEW_TIME_NOT_PASSED \<Rightarrow>
             ValidationError (NeedWatchAnotherMs (TimeLeftMs result))
         | ADD_VIEW_VIDEO_NOT_STREAMED_ENOUGH \<Rightarrow>
             ValidationError (NeedStreamAnotherBytes (BytesLeft result))))"

text \<open>
  A run of still-watching polls on one video: each poll happens at its own time and sees
  the session as it is then; the ledger is threaded through.
\<close>

fun poll_all :: "(int \<times> Watch) list \<Rightarrow> Video \<Rightarrow> ViewLedger \<Rightarrow> Response list \<times> ViewLedger" where
  "poll_all [] v ledger = ([], ledger)"
| "poll_all ((now, watch) # ps) v ledger =
     (let (result, ledger') = TryAddView now watch v ledger;
          (rs, ledger'') = poll_all ps v ledger'
      in (StillWatching (Inr result) # rs, ledger''))"

section \<open>Concrete inputs\<close>

text \<open>
  A placeholder video, a handler state holding it at a given status, and a world in which
  every step of an upload succeeds.
\<close>

definition example_video :: Video where
  "example_video =
     \<lparr>Id' = 7, CreatorId = 1, Name = ''clip'', Description = ''none'', Visibility = PUBLIC,
      Status = EMPTY, MimeType = ''none'', DurationSecs = 0, SizeBytes = 0\<rparr>"

definition example_state :: "VideoStatus \<Rightarrow> UploadState" where
  "example_state s =
     \<lparr>video = example_video\<lparr>Status := s\<rparr>, stored = example_video\<lparr>Status := s\<rparr>,
      file_exists = False, thumbnail_exists = False, response = None,
      assigned = [], calls = []\<rparr>"

definition env_ok :: UploadEnv where
  "env_ok =
     \<lparr>mkdir_ok = True, create_ok = True, copy_ok = True, close_ok = True,
      probe_result = ProbeOk ''video/mp4'' 100, stat_result = Some 1000,
      thumbnail_ok = True\<rparr>"

text \<open>A world in which the probe finds the uploaded file corrupt.\<close>

definition env_corrupt :: UploadEnv where
  "env_corrupt = env_ok\<lparr>probe_result := ErrInvalidVideoType\<rparr>"

text \<open>Worlds in which the thumbnail step fails, and in which the copy of the request body fails.\<close>

definition env_thumbnail_fails :: UploadEnv where
  "env_thumbnail_fails = env_ok\<lparr>thumbnail_ok := False\<rparr>"

definition env_copy_fails :: UploadEnv where
  "env_copy_fails = env_ok\<lparr>copy_ok := False\<rparr>"

text \<open>A session of user 1 on the example video, the watch table holding it, and a world in
  which the database answers.\<close>

definition example_watch :: Watch where
  "example_watch = \<lparr>UserId = 1, VideoId = 7, ViewId = 42, StartedAt = 0, BytesStreamed = 700\<rparr>"

definition example_db :: WatchDb where
  "example_db = \<lparr>watches = [example_watch], next_id = 43\<rparr>"

definition example_watch_env :: WatchEnv where
  "example_watch_env =
     \<lparr>now_attrs = 5000, now_reset = 5001, first_or_create_fails = False, save_fails = False\<rparr>"

text \<open>
  The spec's example video: 1000 bytes, 100 seconds, upload complete. The example session
  started at time 0 and has streamed 700 bytes of it.
\<close>

definition watched_video :: Video where
  "watched_video = example_video\<lparr>Status := COMPLETE, DurationSecs := 100, SizeBytes := 1000\<rparr>"

text \<open>Two later polls of the example session, the second after more bytes were streamed.\<close>

definition example_polls :: "(int \<times> Watch) list" where
  "example_polls =
     [(62000000000, example_watch), (70000000000, example_watch\<lparr>BytesStreamed := 900\<rparr>)]"

section \<open>Properties of the upload handler\<close>

lemmas upload_defs = UploadVideo_def upload_body_def Let_def userError_def serverError_def
  called_def set_status_def Save_def Remove_def

text \<open>The guard of line 130, and the two statuses that are greater than UPLOADING.\<close>

lemma rank_gt_UPLOADING:
  "status_rank UPLOADING < status_rank s \<longleftrightarrow> s = PROCESSING \<or> s = COMPLETE"
  by (cases s) simp_all

lemma rejected_iff:
  "rejected (UploadVideo env st) \<longleftrightarrow> status_rank UPLOADING < status_rank (Status (video st))"
  by (simp add: upload_defs rejected_def split: ProbeResult.splits option.splits)

text \<open>
  Claim C3, as the handler has it. An upload is turned away with the overwrite error
  exactly when the video's status is greater than UPLOADING, and that is PROCESSING or
  COMPLETE, not COMPLETE alone. At EMPTY or UPLOADING the guard lets the call through: it
  goes on to the deferred \<open>Save\<close>. A call that is turned away makes no external call.
\<close>

theorem UploadVideo_overwrite_guard:
  "(rejected (UploadVideo env st) \<longleftrightarrow> status_rank UPLOADING < status_rank (Status (video st)))
   \<and> (rejected (UploadVideo env st) \<longleftrightarrow>
        Status (video st) = PROCESSING \<or> Status (video st) = COMPLETE)
   \<and> (Status (video st) = EMPTY \<or> Status (video st) = UPLOADING \<longrightarrow>
        \<not> rejected (UploadVideo env st) \<and> CallSave \<in> set (calls (UploadVideo env st)))
   \<and> (rejected (UploadVideo env st) \<longrightarrow> calls (UploadVideo env st) = calls st)"
proof -
  have a: "rejected (UploadVideo env st) \<longleftrightarrow> status_rank UPLOADING < status_rank (Status (video st))"
    by (rule rejected_iff)
  have b: "Status (video st) = EMPTY \<or> Status (video st) = UPLOADING \<Longrightarrow>
        CallSave \<in> set (calls (UploadVideo env st))"
    by (auto simp add: UploadVideo_def Save_def called_def)
  have c: "status_rank UPLOADING < status_rank (Status (video st)) \<Longrightarrow> calls (UploadVideo env st) = calls st"
    by (simp add: UploadVideo_def userError_def)
  have d: "status_rank UPLOADING < status_rank (Status (video st)) \<longleftrightarrow>
      Status (video st) = PROCESSING \<or> Status (video st) = COMPLETE"
    by (rule rank_gt_UPLOADING)
  have e: "Status (video st) = EMPTY \<or> Status (video st) = UPLOADING \<Longrightarrow>
      \<not> status_rank UPLOADING < status_rank (Status (video st))"
    by auto
  show ?thesis
    using a b c d e by blast
qed

text \<open>The guard at a video that is UPLOADING and at one that is COMPLETE.\<close>

theorem UploadVideo_overwrite_guard_witness:
  "\<not> rejected (UploadVideo env_ok (example_state UPLOADING))
   \<and> CallSave \<in> set (calls (UploadVideo env_ok (example_state UPLOADING)))
   \<and> rejected (UploadVideo env_ok (example_state COMPLETE))
   \<and> calls (UploadVideo env_ok (example_state COMPLETE)) = []"
  using UploadVideo_overwrite_guard [of env_ok "example_state UPLOADING"]
        UploadVideo_overwrite_guard [of env_ok "example_state COMPLETE"]
  by (simp add: example_state_def)

text \<open>
  Claim C3 as stated reads "greater than UPLOADING" as "already COMPLETE". A video left
  at PROCESSING by a failed thumbnail step is turned away too, and it is not COMPLETE.
\<close>

theorem UploadVideo_rejects_PROCESSING_counterexample:
  "rejected (UploadVideo env_ok (example_state PROCESSING))
   \<and> Status (video (example_state PROCESSING)) \<noteq> COMPLETE"
  by (simp add: UploadVideo_def userError_def rejected_def example_state_def)

text \<open>
  Claim C9. When the guard turns the call away, the only thing that changes is the
  response: the database row, the in-memory record, the files and the list of external
  calls (so no \<open>Save\<close>) are what they were, and no status was assigned.
\<close>

theorem UploadVideo_rejected_writes_nothing:
  assumes "status_rank UPLOADING < status_rank (Status (video st))"
  shows "UploadVideo env st = st\<lparr>response := Some (UserError errVideoCannotOverwrite)\<rparr>
         \<and> stored (UploadVideo env st) = stored st
         \<and> video (UploadVideo env st) = video st
         \<and> assigned (UploadVideo env st) = assigned st
         \<and> calls (UploadVideo env st) = calls st
         \<and> file_exists (UploadVideo env st) = file_exists st
         \<and> thumbnail_exists (UploadVideo env st) = thumbnail_exists st"
  using assms by (simp add: UploadVideo_def userError_def)

text \<open>The rejected call at a COMPLETE video.\<close>

theorem UploadVideo_rejected_writes_nothing_witness:
  "status_rank UPLOADING < status_rank (Status (video (example_state COMPLETE)))
   \<and> stored (UploadVideo env_ok (example_state COMPLETE)) = example_video\<lparr>Status := COMPLETE\<rparr>
   \<and> calls (UploadVideo env_ok (example_state COMPLETE)) = []
   \<and> assigned (UploadVideo env_ok (example_state COMPLETE)) = []"
proof -
  have h: "status_rank UPLOADING < status_rank (Status (video (example_state COMPLETE)))"
    by (simp add: example_state_def)
  show ?thesis
    using h UploadVideo_rejected_writes_nothing [OF h, of env_ok]
    by (simp add: example_state_def)
qed

text \<open>The status values assigned by one call, after the value the call started with.\<close>

lemma assigned_sorted:
  "sorted_wrt (\<lambda>a b. status_rank a \<le> status_rank b)
     (Status (video st) # assigned (UploadVideo env (st\<lparr>assigned := []\<rparr>)))"
  by (cases "Status (video st)") (simp_all add: upload_defs split: ProbeResult.splits option.splits)

lemma final_status_is_last:
  "Status (video (UploadVideo env (st\<lparr>assigned := []\<rparr>))) =
     last (Status (video st) # assigned (UploadVideo env (st\<lparr>assigned := []\<rparr>)))"
  by (simp add: upload_defs split: ProbeResult.splits option.splits)

lemma saved_past_guard:
  "status_rank (Status (video st)) \<le> status_rank UPLOADING \<Longrightarrow>
     stored (UploadVideo env st) = video (UploadVideo env st)"
  by (simp add: upload_defs split: ProbeResult.splits option.splits)

lemma Save_is_last_call:
  "status_rank (Status (video st)) \<le> status_rank UPLOADING \<Longrightarrow>
     \<exists>cs. calls (UploadVideo env st) = calls st @ cs @ [CallSave] \<and> CallSave \<notin> set cs"
  by (simp add: upload_defs split: ProbeResult.splits option.splits)

text \<open>
  Claim C6. Take a call that starts with nothing assigned yet and with the record as the
  database has it. The status values the video takes during the call, starting with the
  one it had, never decrease in the order EMPTY, UPLOADING, PROCESSING, COMPLETE, and
  all lie in that set. On every exit path the database row ends with the last of them.
  Past the guard this is the work of the deferred \<open>Save\<close>: it is the last external call,
  it is made exactly once, and it writes the whole in-memory record.
\<close>

theorem UploadVideo_status_trace:
  assumes "assigned st = []" and "Status (stored st) = Status (video st)"
  shows "sorted_wrt (\<lambda>a b. status_rank a \<le> status_rank b)
           (Status (video st) # assigned (UploadVideo env st))
         \<and> set (Status (video st) # assigned (UploadVideo env st))
             \<subseteq> {EMPTY, UPLOADING, PROCESSING, COMPLETE}
         \<and> Status (stored (UploadVideo env st))
             = last (Status (video st) # assigned (UploadVideo env st))
         \<and> (status_rank (Status (video st)) \<le> status_rank UPLOADING \<longrightarrow>
              stored (UploadVideo env st) = video (UploadVideo env st)
              \<and> (\<exists>cs. calls (UploadVideo env st) = calls st @ cs @ [CallSave]
                       \<and> CallSave \<notin> set cs))"
proof -
  have st: "st\<lparr>assigned := []\<rparr> = st"
    using assms(1) by simp
  have a: "sorted_wrt (\<lambda>a b. status_rank a \<le> status_rank b)
           (Status (video st) # assigned (UploadVideo env st))"
    using assigned_sorted [of st env] by (simp add: st)
  have b: "set (Status (video st) # assigned (UploadVideo env st))
             \<subseteq> {EMPTY, UPLOADING, PROCESSING, COMPLETE}"
  proof
    fix s assume "s \<in> set (Status (video st) # assigned (UploadVideo env st))"
    show "s \<in> {EMPTY, UPLOADING, PROCESSING, COMPLETE}"
      by (cases s) simp_all
  qed
  have c: "Status (stored (UploadVideo env st))
             = last (Status (video st) # assigned (UploadVideo env st))"
  proof (cases "status_rank (Status (video st)) \<le> status_rank UPLOADING")
    case True
    then show ?thesis
      using saved_past_guard [of st env] final_status_is_last [of env st] by (simp add: st)
  next
    case False
    then show ?thesis
      using assms by (simp add: UploadVideo_def userError_def)
  qed
  show ?thesis
    using a b c saved_past_guard [of st env] Save_is_last_call [of st env] by blast
qed



text \<open>A successful upload and an upload of a corrupt file, both to an EMPTY video.\<close>

theorem UploadVideo_status_trace_witness:
  "assigned (example_state EMPTY) = []
   \<and> Status (stored (example_state EMPTY)) = Status (video (example_state EMPTY))
   \<and> assigned (UploadVideo env_ok (example_state EMPTY)) = [UPLOADING, PROCESSING, COMPLETE]
   \<and> Status (stored (UploadVideo env_ok (example_state EMPTY))) = COMPLETE
   \<and> assigned (UploadVideo env_corrupt (example_state EMPTY)) = [UPLOADING]
   \<and> Status (stored (UploadVideo env_corrupt (example_state EMPTY))) = UPLOADING
   \<and> stored (UploadVideo env_corrupt (example_state EMPTY))
       = video (UploadVideo env_corrupt (example_state EMPTY))"
proof -
  have h1: "assigned (example_state EMPTY) = []"
    and h2: "Status (stored (example_state EMPTY)) = Status (video (example_state EMPTY))"
    by (simp_all add: example_state_def)
  have a: "assigned (UploadVideo env_ok (example_state EMPTY)) = [UPLOADING, PROCESSING, COMPLETE]"
    by (simp add: upload_defs example_state_def env_ok_def)
  have b: "assigned (UploadVideo env_corrupt (example_state EMPTY)) = [UPLOADING]"
    by (simp add: upload_defs example_state_def env_ok_def env_corrupt_def)
  have r: "status_rank (Status (video (example_state EMPTY))) \<le> status_rank UPLOADING"
    by (simp add: example_state_def)
  note t1 = UploadVideo_status_trace [OF h1 h2, of env_ok]
  note t2 = UploadVideo_status_trace [OF h1 h2, of env_corrupt]
  have "Status (stored (UploadVideo env_ok (example_state EMPTY)))
          = last (Status (video (example_state EMPTY))
                  # assigned (UploadVideo env_ok (example_state EMPTY)))"
    using t1 by blast
  then have c: "Status (stored (UploadVideo env_ok (example_state EMPTY))) = COMPLETE"
    by (simp add: a)
  have "Status (stored (UploadVideo env_corrupt (example_state EMPTY)))
          = last (Status (video (example_state EMPTY))
                  # assigned (UploadVideo env_corrupt (example_state EMPTY)))"
    using t2 by blast
  then have d: "Status (stored (UploadVideo env_corrupt (example_state EMPTY))) = UPLOADING"
    by (simp add: b)
  have e: "stored (UploadVideo env_corrupt (example_state EMPTY))
       = video (UploadVideo env_corrupt (example_state EMPTY))"
    using t2 r by blast
  show ?thesis
    using h1 h2 a b c d e by blast
qed

text \<open>
  Claim C7. Past the guard, with the directory made and the file created, the handler
  stops at its first failure. When the copy of the body fails, when closing the file
  fails, or when the probe fails (unsupported format or any other probe error), the
  file is removed, no later step is called, the stored status is UPLOADING and a further
  upload is not turned away by the guard. When the thumbnail step fails, \<open>Remove\<close> is not
  called, the file stays, the stored status is PROCESSING, and a further upload is turned
  away.
\<close>

theorem UploadVideo_failure_cleanup:
  assumes "status_rank (Status (video st)) \<le> status_rank UPLOADING"
    and "mkdir_ok env" and "create_ok env"
  shows
    "(let st' = UploadVideo env st in
      (\<not> copy_ok env \<longrightarrow>
         \<not> file_exists st' \<and> Status (stored st') = UPLOADING
         \<and> response st' = Some (ServerError errGenericFileIo)
         \<and> calls st' = calls st @ [CallMkdirAll, CallCreate, CallCopy, CallClose,
                                     CallRemove, CallSave]
         \<and> \<not> rejected (UploadVideo env2 st'))
      \<and> (copy_ok env \<and> \<not> close_ok env \<longrightarrow>
         \<not> file_exists st' \<and> Status (stored st') = UPLOADING
         \<and> response st' = Some (ServerError errGenericFileIo)
         \<and> calls st' = calls st @ [CallMkdirAll, CallCreate, CallCopy, CallClose,
                                     CallRemove, CallSave]
         \<and> \<not> rejected (UploadVideo env2 st'))
      \<and> (copy_ok env \<and> close_ok env \<and> probe_result env = ErrInvalidVideoType \<longrightarrow>
         \<not> file_exists st' \<and> Status (stored st') = UPLOADING
         \<and> response st' = Some (UserError errVideoInvalidFormat)
         \<and> calls st' = calls st @ [CallMkdirAll, CallCreate, CallCopy, CallClose,
                                     CallProbe, CallRemove, CallSave]
         \<and> \<not> rejected (UploadVideo env2 st'))
      \<and> (copy_ok env \<and> close_ok env \<and> probe_result env = ProbeOtherError \<longrightarrow>
         \<not> file_exists st' \<and> Status (stored st') = UPLOADING
         \<and> response st' = Some (ServerError errVideoProbe)
         \<and> calls st' = calls st @ [CallMkdirAll, CallCreate, CallCopy, CallClose,
                                     CallProbe, CallRemove, CallSave]
         \<and> \<not> rejected (UploadVideo env2 st'))
      \<and> (copy_ok env \<and> close_ok env \<and> probe_result env = ProbeOk mime dur
          \<and> stat_result env = Some sz \<and> \<not> thumbnail_ok env \<longrightarrow>
         file_exists st' \<and> Status (stored st') = PROCESSING
         \<and> response st' = Some (ServerError errVideoGenerateThumbnail)
         \<and> calls st' = calls st @ [CallMkdirAll, CallCreate, CallCopy, CallClose,
                                     CallProbe, CallStat, CallGenerateThumbnail, CallSave]
         \<and> rejected (UploadVideo env2 st')))"
proof -
  have r: "\<And>s. rejected (UploadVideo env2 s) \<longleftrightarrow> status_rank UPLOADING < status_rank (Status (video s))"
    by (rule rejected_iff)
  show ?thesis
    using assms unfolding r by (simp add: upload_defs)
qed



text \<open>
  A corrupt file uploaded to an EMPTY video, followed by a valid one, which reaches
  COMPLETE; a failed copy; a failed thumbnail step.
\<close>

theorem UploadVideo_failure_cleanup_witness:
  "status_rank (Status (video (example_state EMPTY))) \<le> status_rank UPLOADING
   \<and> mkdir_ok env_corrupt \<and> create_ok env_corrupt \<and> copy_ok env_corrupt \<and> close_ok env_corrupt
   \<and> probe_result env_corrupt = ErrInvalidVideoType
   \<and> \<not> file_exists (UploadVideo env_corrupt (example_state EMPTY))
   \<and> Status (stored (UploadVideo env_corrupt (example_state EMPTY))) = UPLOADING
   \<and> \<not> rejected (UploadVideo env_ok (UploadVideo env_corrupt (example_state EMPTY)))
   \<and> Status (stored (UploadVideo env_ok (UploadVideo env_corrupt (example_state EMPTY)))) = COMPLETE
   \<and> \<not> copy_ok env_copy_fails
   \<and> \<not> file_exists (UploadVideo env_copy_fails (example_state EMPTY))
   \<and> Status (stored (UploadVideo env_copy_fails (example_state EMPTY))) = UPLOADING
   \<and> \<not> thumbnail_ok env_thumbnail_fails
   \<and> file_exists (UploadVideo env_thumbnail_fails (example_state EMPTY))
   \<and> Status (stored (UploadVideo env_thumbnail_fails (example_state EMPTY))) = PROCESSING"
proof -
  have g: "status_rank (Status (video (example_state EMPTY))) \<le> status_rank UPLOADING"
    by (simp add: example_state_def)
  have e1: "mkdir_ok env_corrupt" "create_ok env_corrupt" "copy_ok env_corrupt"
    "close_ok env_corrupt" "probe_result env_corrupt = ErrInvalidVideoType"
    by (simp_all add: env_corrupt_def env_ok_def)
  have e2: "mkdir_ok env_copy_fails" "create_ok env_copy_fails" "\<not> copy_ok env_copy_fails"
    by (simp_all add: env_copy_fails_def env_ok_def)
  have e3: "mkdir_ok env_thumbnail_fails" "create_ok env_thumbnail_fails"
    "copy_ok env_thumbnail_fails" "close_ok env_thumbnail_fails"
    "probe_result env_thumbnail_fails = ProbeOk ''video/mp4'' 100"
    "stat_result env_thumbnail_fails = Some 1000" "\<not> thumbnail_ok env_thumbnail_fails"
    by (simp_all add: env_thumbnail_fails_def env_ok_def)
  have retry: "Status (stored (UploadVideo env_ok (UploadVideo env_corrupt (example_state EMPTY)))) = COMPLETE"
    by (simp add: upload_defs example_state_def env_ok_def env_corrupt_def)
  note t1 = UploadVideo_failure_cleanup [OF g e1(1) e1(2), of env_ok, unfolded Let_def]
  note t2 = UploadVideo_failure_cleanup [OF g e2(1) e2(2), of env_ok, unfolded Let_def]
  note t3 = UploadVideo_failure_cleanup [OF g e3(1) e3(2), of env_ok "''video/mp4''" 100 1000,
      unfolded Let_def]
  show ?thesis
    using g e1 e2 e3 retry t1 t2 t3 by blast
qed

text \<open>
  Claim C10. When the probe and \<open>os.Stat\<close> succeed and the thumbnail step then fails, the
  database row is the record the call started with, carrying the probe's MIME type and
  duration, the size \<open>os.Stat\<close> reported, and status PROCESSING: no field set before the
  failure is lost.
\<close>

theorem UploadVideo_thumbnail_failure_keeps_metadata:
  assumes "status_rank (Status (video st)) \<le> status_rank UPLOADING"
    and "mkdir_ok env" and "create_ok env" and "copy_ok env" and "close_ok env"
    and "probe_result env = ProbeOk mime dur"
    and "stat_result env = Some sz"
    and "\<not> thumbnail_ok env"
  shows "stored (UploadVideo env st)
           = (video st)\<lparr>MimeType := mime, DurationSecs := dur, SizeBytes := sz,
                         Status := PROCESSING\<rparr>
         \<and> response (UploadVideo env st) = Some (ServerError errVideoGenerateThumbnail)"
  using assms by (simp add: upload_defs)

text \<open>The failed thumbnail step after a probe that reported video/mp4 and 100 seconds.\<close>

theorem UploadVideo_thumbnail_failure_keeps_metadata_witness:
  "status_rank (Status (video (example_state EMPTY))) \<le> status_rank UPLOADING
   \<and> probe_result env_thumbnail_fails = ProbeOk ''video/mp4'' 100
   \<and> stat_result env_thumbnail_fails = Some 1000
   \<and> \<not> thumbnail_ok env_thumbnail_fails
   \<and> stored (UploadVideo env_thumbnail_fails (example_state EMPTY))
       = example_video\<lparr>MimeType := ''video/mp4'', DurationSecs := 100, SizeBytes := 1000,
                        Status := PROCESSING\<rparr>"
proof -
  have g: "status_rank (Status (video (example_state EMPTY))) \<le> status_rank UPLOADING"
    by (simp add: example_state_def)
  have e3: "mkdir_ok env_thumbnail_fails" "create_ok env_thumbnail_fails"
    "copy_ok env_thumbnail_fails" "close_ok env_thumbnail_fails"
    "probe_result env_thumbnail_fails = ProbeOk ''video/mp4'' 100"
    "stat_result env_thumbnail_fails = Some 1000" "\<not> thumbnail_ok env_thumbnail_fails"
    by (simp_all add: env_thumbnail_fails_def env_ok_def)
  have v: "video (example_state EMPTY) = example_video"
    by (simp add: example_state_def example_video_def)
  show ?thesis
    using g e3 UploadVideo_thumbnail_failure_keeps_metadata [OF g e3]
    by (simp add: v)
qed

text \<open>
  The remaining failures: \<open>os.MkdirAll\<close> and \<open>os.Create\<close> fail before this call has
  written a file, and a failing \<open>os.Stat\<close> (after the probe) returns without removing the
  file. The stored status is UPLOADING in all three.
\<close>

lemma UploadVideo_other_failures:
  assumes "status_rank (Status (video st)) \<le> status_rank UPLOADING"
  shows "(\<not> mkdir_ok env \<longrightarrow>
            file_exists (UploadVideo env st) = file_exists st
            \<and> Status (stored (UploadVideo env st)) = UPLOADING
            \<and> calls (UploadVideo env st) = calls st @ [CallMkdirAll, CallSave])
         \<and> (mkdir_ok env \<and> \<not> create_ok env \<longrightarrow>
            file_exists (UploadVideo env st) = file_exists st
            \<and> Status (stored (UploadVideo env st)) = UPLOADING
            \<and> calls (UploadVideo env st) = calls st @ [CallMkdirAll, CallCreate, CallSave])
         \<and> (mkdir_ok env \<and> create_ok env \<and> copy_ok env \<and> close_ok env
             \<and> probe_result env = ProbeOk mime dur \<and> stat_result env = None \<longrightarrow>
            file_exists (UploadVideo env st)
            \<and> Status (stored (UploadVideo env st)) = UPLOADING
            \<and> response (UploadVideo env st) = Some (ServerError errVideoGetSize)
            \<and> calls (UploadVideo env st) = calls st @ [CallMkdirAll, CallCreate, CallCopy,
                  CallClose, CallProbe, CallStat, CallSave])"
  using assms by (simp add: upload_defs)

section \<open>Properties of the session store\<close>

lemmas watchFor_defs = watchFor_def NewId_def Let_def

text \<open>The query by user identifier, before and after an insert and an update of the row.\<close>

lemma find_user_row:
  assumes "find (\<lambda>r. UserId r = k) rows = Some w"
  shows "UserId w = k \<and> list_ex (\<lambda>r. UserId r = k) rows"
  using assms by (induction rows) (auto split: if_splits)

lemma find_after_insert:
  assumes "find (\<lambda>r. UserId r = k) rows = None" and "UserId w = k"
  shows "find (\<lambda>r. UserId r = k) (rows @ [w]) = Some w"
  using assms by (induction rows) (auto split: if_splits)

lemma find_after_update:
  assumes "find (\<lambda>r. UserId r = k) rows = Some w" and "UserId w' = k"
  shows "find (\<lambda>r. UserId r = k) (map (\<lambda>r. if UserId r = k then w' else r) rows) = Some w'"
  using assms by (induction rows) (auto split: if_splits)

text \<open>
  Claim C5. Take a user whose identifier is not 0 (identifiers come from the generator,
  and gorm reads 0 as no identifier), and let the database answer. \<open>watchFor\<close> returns the
  user's row as it is, and leaves the table alone, if the row targets the given video.
  With no row it inserts one, and with a row on another video it overwrites that row: in
  both cases the user's session then has the given video, zero bytes streamed, the
  current time as start, and a view identifier drawn from the generator during this
  call, so one that differs from every identifier handed out before, the old session's
  among them.
\<close>

theorem watchFor_get_or_start:
  assumes "\<not> first_or_create_fails env" and "\<not> save_fails env" and "user_id \<noteq> 0"
  shows
    "(let (r, db') = watchFor env user_id v db;
          row = find (\<lambda>w. UserId w = user_id)
      in (\<forall>w. row (watches db) = Some w \<and> VideoId w = Id' v \<longrightarrow>
            r = Inr w \<and> watches db' = watches db)
         \<and> (row (watches db) = None \<longrightarrow>
            (\<exists>w'. r = Inr w' \<and> watches db' = watches db @ [w']
                  \<and> row (watches db') = Some w'
                  \<and> UserId w' = user_id \<and> VideoId w' = Id' v
                  \<and> StartedAt w' = now_attrs env \<and> BytesStreamed w' = 0
                  \<and> next_id db \<le> ViewId w' \<and> ViewId w' < next_id db'))
         \<and> (\<forall>w. row (watches db) = Some w \<and> VideoId w \<noteq> Id' v \<longrightarrow>
            (\<exists>w'. r = Inr w'
                  \<and> watches db' = map (\<lambda>r. if UserId r = user_id then w' else r) (watches db)
                  \<and> row (watches db') = Some w'
                  \<and> UserId w' = user_id \<and> VideoId w' = Id' v
                  \<and> StartedAt w' = now_reset env \<and> BytesStreamed w' = 0
                  \<and> next_id db \<le> ViewId w' \<and> ViewId w' < next_id db'
                  \<and> (ViewId w < next_id db \<longrightarrow> ViewId w' \<noteq> ViewId w))))"
proof -
  let ?row = "find (\<lambda>w. UserId w = user_id)"
  have q: "first_where_user user_id (watches db) = ?row (watches db)"
    using assms(3) by (simp add: first_where_user_def)
  show ?thesis
  proof (cases "?row (watches db)")
    case None
    then show ?thesis
      using assms q find_after_insert [of user_id "watches db"]
      by (simp add: watchFor_defs)
  next
    case (Some w)
    from find_user_row [OF Some] have k: "UserId w = user_id"
      and ex: "list_ex (\<lambda>r. UserId r = user_id) (watches db)"
      by simp_all
    show ?thesis
    proof (cases "VideoId w = Id' v")
      case True
      then show ?thesis
        using assms q Some by (simp add: watchFor_defs)
    next
      case False
      define w' where "w' = w\<lparr>VideoId := Id' v, ViewId := next_id db + 1,
                              StartedAt := now_reset env, BytesStreamed := 0\<rparr>"
      have k': "UserId w' = user_id" by (simp add: w'_def k)
      have upd: "?row (map (\<lambda>r. if UserId r = user_id then w' else r) (watches db)) = Some w'"
        using find_after_update [OF Some k'] .
      have res: "watchFor env user_id v db
          = (Inr w', \<lparr>watches = map (\<lambda>r. if UserId r = user_id then w' else r) (watches db),
                       next_id = next_id db + 2\<rparr>)"
        using assms q Some False k ex
        by (simp add: watchFor_defs save_row_def w'_def)
      show ?thesis
        using Some False upd k' unfolding res
        by (simp add: w'_def)
    qed
  qed
qed


text \<open>User 1 polling the video of the session, user 1 switching to video 8, and user 2
  with no session yet.\<close>

theorem watchFor_get_or_start_witness:
  "\<not> first_or_create_fails example_watch_env \<and> \<not> save_fails example_watch_env
   \<and> find (\<lambda>w. UserId w = 1) (watches example_db) = Some example_watch
   \<and> VideoId example_watch = Id' example_video
   \<and> fst (watchFor example_watch_env 1 example_video example_db) = Inr example_watch
   \<and> watches (snd (watchFor example_watch_env 1 example_video example_db)) = watches example_db
   \<and> VideoId example_watch \<noteq> Id' (example_video\<lparr>Id' := 8\<rparr>)
   \<and> fst (watchFor example_watch_env 1 (example_video\<lparr>Id' := 8\<rparr>) example_db)
       = Inr \<lparr>UserId = 1, VideoId = 8, ViewId = 44, StartedAt = 5001, BytesStreamed = 0\<rparr>
   \<and> find (\<lambda>w. UserId w = 2) (watches example_db) = None
   \<and> fst (watchFor example_watch_env 2 example_video example_db)
       = Inr \<lparr>UserId = 2, VideoId = 7, ViewId = 43, StartedAt = 5000, BytesStreamed = 0\<rparr>"
proof -
  have e: "\<not> first_or_create_fails example_watch_env" "\<not> save_fails example_watch_env"
    by (simp_all add: example_watch_env_def)
  have n: "(1::int) \<noteq> 0"
    by simp
  have d: "find (\<lambda>w. UserId w = 1) (watches example_db) = Some example_watch"
    "find (\<lambda>w. UserId w = 2) (watches example_db) = None"
    "VideoId example_watch = Id' example_video"
    "VideoId example_watch \<noteq> Id' (example_video\<lparr>Id' := 8\<rparr>)"
    by (simp_all add: example_db_def example_watch_def example_video_def)
  have same: "fst (watchFor example_watch_env 1 example_video example_db) = Inr example_watch
      \<and> watches (snd (watchFor example_watch_env 1 example_video example_db)) = watches example_db"
    using watchFor_get_or_start [OF e n, of example_video example_db] d
    by (simp add: split_beta Let_def)
  have other: "fst (watchFor example_watch_env 1 (example_video\<lparr>Id' := 8\<rparr>) example_db)
       = Inr \<lparr>UserId = 1, VideoId = 8, ViewId = 44, StartedAt = 5001, BytesStreamed = 0\<rparr>"
    by (simp add: watchFor_defs first_where_user_def example_db_def example_watch_def
        example_video_def example_watch_env_def)
  have fresh: "fst (watchFor example_watch_env 2 example_video example_db)
       = Inr \<lparr>UserId = 2, VideoId = 7, ViewId = 43, StartedAt = 5000, BytesStreamed = 0\<rparr>"
    by (simp add: watchFor_defs first_where_user_def example_db_def example_watch_def
        example_video_def example_watch_env_def)
  show ?thesis
    using e d same other fresh by blast
qed

text \<open>When the query fails, \<open>watchFor\<close> returns the error and the table is unchanged.\<close>

lemma watchFor_database_failure:
  "first_or_create_fails env \<Longrightarrow>
     fst (watchFor env user_id v db) = Inl ErrDatabase
     \<and> watches (snd (watchFor env user_id v db)) = watches db"
  by (simp add: watchFor_defs)

text \<open>
  With the user identifier 0 the query has no condition: a call for video 8 finds the
  row of user 1, which is on video 7, and resets that row.
\<close>

lemma watchFor_user_zero:
  "watchFor example_watch_env 0 (example_video\<lparr>Id' := 8\<rparr>) example_db
     = (Inr \<lparr>UserId = 1, VideoId = 8, ViewId = 44, StartedAt = 5001, BytesStreamed = 0\<rparr>,
        \<lparr>watches = [\<lparr>UserId = 1, VideoId = 8, ViewId = 44, StartedAt = 5001,
                       BytesStreamed = 0\<rparr>],
         next_id = 45\<rparr>)"
  by (simp add: watchFor_defs first_where_user_def save_row_def example_db_def
      example_watch_def example_video_def example_watch_env_def)

section \<open>Properties of float64 rounding\<close>

text \<open>\<open>log2_floor\<close> and \<open>exponent\<close> bracket their argument between two powers of two.\<close>

lemma log2_floor_bounds:
  "0 < n \<Longrightarrow> 2 ^ log2_floor n \<le> n \<and> n < 2 ^ (log2_floor n + 1)"
proof (induction n rule: log2_floor.induct)
  case (1 n)
  show ?case
  proof (cases "n < 2")
    case True
    with "1.prems" have "n = 1" by simp
    then show ?thesis by (simp add: log2_floor.simps)
  next
    case False
    then have pos: "0 < n div 2" by simp
    have IH: "2 ^ log2_floor (n div 2) \<le> n div 2 \<and> n div 2 < 2 ^ (log2_floor (n div 2) + 1)"
      using "1.IH" False pos by simp
    have eq: "log2_floor n = Suc (log2_floor (n div 2))"
      using False by (subst log2_floor.simps) simp
    define a :: int where "a = 2 ^ log2_floor (n div 2)"
    have "a \<le> n div 2" "n div 2 < 2 * a"
      using IH by (simp_all add: a_def)
    then have "2 * a \<le> n \<and> n < 2 * (2 * a)" by linarith
    then show ?thesis by (simp add: eq a_def)
  qed
qed

lemma log2_floor_bounds_rat:
  assumes "0 < n"
  shows "(2::rat) ^ log2_floor n \<le> of_int n \<and> (of_int n :: rat) + 1 \<le> 2 ^ (log2_floor n + 1)"
proof -
  from log2_floor_bounds [OF assms]
  have b1: "2 ^ log2_floor n \<le> n" and b2: "n + 1 \<le> 2 ^ (log2_floor n + 1)" by auto
  have "(of_int (2 ^ log2_floor n) :: rat) \<le> of_int n"
    using b1 by (simp only: of_int_le_iff)
  moreover have "(of_int (n + 1) :: rat) \<le> of_int (2 ^ (log2_floor n + 1))"
    using b2 by (simp only: of_int_le_iff)
  ultimately show ?thesis by simp
qed

lemma exponent_bounds:
  assumes "x \<noteq> 0"
  shows "2 powi exponent x \<le> \<bar>x\<bar> \<and> \<bar>x\<bar> < 2 powi (exponent x + 1)"
proof (cases "1 \<le> \<bar>x\<bar>")
  case True
  define n where "n = \<lfloor>\<bar>x\<bar>\<rfloor>"
  have npos: "0 < n" using True by (simp add: n_def)
  have e: "exponent x = int (log2_floor n)"
    using True by (simp add: exponent_def n_def)
  have n1: "(of_int n :: rat) \<le> \<bar>x\<bar>" and n2: "\<bar>x\<bar> < of_int n + 1"
    unfolding n_def by linarith+
  have "2 powi exponent x = (2::rat) ^ log2_floor n"
    by (simp add: e)
  moreover have "2 powi (exponent x + 1) = (2::rat) ^ (log2_floor n + 1)"
  proof -
    have "exponent x + 1 = int (log2_floor n + 1)" by (simp add: e)
    then show ?thesis by (simp only: power_int_of_nat)
  qed
  ultimately show ?thesis
    using n1 n2 log2_floor_bounds_rat [OF npos] by linarith
next
  case False
  define r where "r = 1 / \<bar>x\<bar>"
  have xpos: "0 < \<bar>x\<bar>" using assms by simp
  have r1: "1 < r" using False xpos by (simp add: r_def)
  define n where "n = \<lceil>r\<rceil> - 1"
  have c: "2 \<le> \<lceil>r\<rceil>" using r1 by linarith
  then have npos: "0 < n" by (simp add: n_def)
  have nr: "(of_int n :: rat) = of_int \<lceil>r\<rceil> - 1" by (simp add: n_def)
  have n1: "(of_int n :: rat) < r" unfolding nr by linarith
  have n2: "r \<le> of_int n + 1" unfolding nr by linarith
  define k where "k = log2_floor n"
  have e: "exponent x = - (int k + 1)"
    using False by (simp add: exponent_def n_def r_def k_def)
  from log2_floor_bounds_rat [OF npos]
  have q1: "(2::rat) ^ k \<le> of_int n" and q2: "(of_int n :: rat) + 1 \<le> 2 ^ (k + 1)"
    by (simp_all add: k_def)
  have lo: "r \<le> 2 ^ (k + 1)" using n2 q2 by linarith
  have hi: "(2::rat) ^ k < r" using n1 q1 by linarith
  have p1: "2 powi exponent x = 1 / (2::rat) ^ (k + 1)"
  proof -
    have "exponent x = - int (k + 1)" by (simp add: e)
    then have "2 powi exponent x = inverse ((2::rat) powi int (k + 1))"
      by (simp only: power_int_minus)
    then show ?thesis by (simp only: power_int_of_nat inverse_eq_divide)
  qed
  have p2: "2 powi (exponent x + 1) = 1 / (2::rat) ^ k"
  proof -
    have "exponent x + 1 = - int k" by (simp add: e)
    then have "2 powi (exponent x + 1) = inverse ((2::rat) powi int k)"
      by (simp only: power_int_minus)
    then show ?thesis by (simp only: power_int_of_nat inverse_eq_divide)
  qed
  have "1 / (2::rat) ^ (k + 1) \<le> \<bar>x\<bar>"
    using lo xpos unfolding r_def by (simp add: divide_simps mult.commute)
  moreover have "\<bar>x\<bar> < 1 / (2::rat) ^ k"
    using hi xpos unfolding r_def by (simp add: divide_simps mult.commute)
  ultimately show ?thesis unfolding p1 p2 by simp
qed

text \<open>No integer is nearer to \<open>r\<close> than \<open>round_half_even r\<close>.\<close>

lemma round_half_even_nearest:
  "\<bar>of_int (round_half_even r) - r\<bar> \<le> \<bar>of_int k - r\<bar>"
proof -
  define f where "f = \<lfloor>r\<rfloor>"
  have f1: "of_int f \<le> r" and f2: "r < of_int f + 1"
    by (simp_all add: f_def) linarith
  have "k \<le> f \<or> f + 1 \<le> k" by linarith
  then have kk: "(of_int k :: rat) \<le> of_int f \<or> (of_int f :: rat) + 1 \<le> of_int k"
    by (metis of_int_le_iff of_int_add of_int_1)
  show ?thesis
    using kk f1 f2
    by (auto simp add: round_half_even_def Let_def simp flip: f_def)
qed


lemma two_powi_add: "(2::rat) powi (a + b) = 2 powi a * 2 powi b"
  by (rule power_int_add) simp

lemma ulp_pos: "0 < ulp x"
  by (simp add: ulp_def)

lemma scaled_distance:
  fixes u x :: rat
  assumes "0 < u"
  shows "\<bar>of_int a * u - x\<bar> = u * \<bar>of_int a - x / u\<bar>"
proof -
  have "u * (x / u) = x"
    using assms by simp
  then have "of_int a * u - x = u * (of_int a - x / u)"
    by (simp add: right_diff_distrib mult.commute)
  then show ?thesis
    using assms by (simp add: abs_mult)
qed

lemma round64_multiple_nearest:
  assumes "x \<noteq> 0"
  shows "\<bar>round64 x - x\<bar> \<le> \<bar>of_int j * ulp x - x\<bar>"
proof -
  have "\<bar>round64 x - x\<bar> = ulp x * \<bar>of_int (round_half_even (x / ulp x)) - x / ulp x\<bar>"
    using assms scaled_distance [OF ulp_pos] by (simp add: round64_def)
  also have "\<dots> \<le> ulp x * \<bar>of_int j - x / ulp x\<bar>"
    using round_half_even_nearest [of "x / ulp x" j] ulp_pos [of x]
    by (simp add: mult_left_mono)
  also have "\<dots> = \<bar>of_int j * ulp x - x\<bar>"
    using scaled_distance [OF ulp_pos] by simp
  finally show ?thesis .
qed

text \<open>
  No float64 value is nearer to \<open>x\<close> than \<open>round64 x\<close>. A value on the grid of \<open>x\<close>'s own
  exponent is a multiple of \<open>ulp x\<close>; one on a finer grid has 53 bits at a smaller exponent
  and so lies below \<open>2^e\<close> in magnitude, farther from \<open>x\<close> than \<open>2^e\<close> itself.
\<close>

lemma round64_nearest:
  assumes "representable y"
  shows "\<bar>round64 x - x\<bar> \<le> \<bar>y - x\<bar>"
proof (cases "x = 0")
  case True
  then show ?thesis by (simp add: round64_def)
next
  case False
  define e where "e = exponent x"
  from assms obtain m k :: int where m: "\<bar>m\<bar> < 2 ^ 53" and y: "y = of_int m * 2 powi k"
    by (auto simp: representable_def)
  have bounds: "2 powi e \<le> \<bar>x\<bar>" "\<bar>x\<bar> < 2 powi (e + 1)"
    using exponent_bounds [OF False] by (simp_all add: e_def)
  have u: "ulp x = 2 powi (e - 52)" by (simp add: ulp_def e_def)
  show ?thesis
  proof (cases "e - 52 \<le> k")
    case True
    define d where "d = nat (k - (e - 52))"
    have "k = int d + (e - 52)" using True by (simp add: d_def)
    then have "(2::rat) powi k = 2 powi int d * 2 powi (e - 52)"
      by (simp only: two_powi_add)
    then have "y = of_int (m * 2 ^ d) * ulp x"
      by (simp add: y u)
    then show ?thesis
      using round64_multiple_nearest [OF False, of "m * 2 ^ d"] by simp
  next
    case False
    then have "k \<le> e - 53" by simp
    then have "(2::rat) powi k \<le> 2 powi (e - 53)"
      by (intro power_int_increasing) simp_all
    moreover have "\<bar>of_int m :: rat\<bar> < 2 ^ 53"
    proof -
      have "(of_int \<bar>m\<bar> :: rat) < of_int (2 ^ 53)" using m by (simp only: of_int_less_iff)
      then show ?thesis by simp
    qed
    ultimately have "\<bar>of_int m :: rat\<bar> * 2 powi k < 2 ^ 53 * 2 powi (e - 53)"
      by (intro mult_less_le_imp_less) simp_all
    moreover have "(2::rat) ^ 53 * 2 powi (e - 53) = 2 powi e"
    proof -
      have "(2::rat) powi (53 + (e - 53)) = 2 powi 53 * 2 powi (e - 53)"
        by (rule two_powi_add)
      then show ?thesis by simp
    qed
    ultimately have ylt: "\<bar>y\<bar> < 2 powi e"
      by (simp add: y abs_mult)
    have b: "of_int (2 ^ 52) * ulp x = 2 powi e"
    proof -
      have "(2::rat) powi (52 + (e - 52)) = 2 powi 52 * 2 powi (e - 52)"
        by (rule two_powi_add)
      then show ?thesis by (simp add: u)
    qed
    have nb: "of_int (- (2 ^ 52)) * ulp x = - (2 powi e)"
      using b by simp
    show ?thesis
    proof (cases "0 < x")
      case True
      have "\<bar>round64 x - x\<bar> \<le> \<bar>2 powi e - x\<bar>"
        using round64_multiple_nearest [OF \<open>x \<noteq> 0\<close>, of "2 ^ 52"] by (simp only: b)
      then show ?thesis using True bounds ylt by linarith
    next
      case False
      with \<open>x \<noteq> 0\<close> have "x < 0" by simp
      have "\<bar>round64 x - x\<bar> \<le> \<bar>- (2 powi e) - x\<bar>"
        using round64_multiple_nearest [OF \<open>x \<noteq> 0\<close>, of "- (2 ^ 52)"] by (simp only: nb)
      then show ?thesis using \<open>x < 0\<close> bounds ylt by linarith
    qed
  qed
qed

text \<open>Hence float64 values round to themselves, and rounding never crosses a float64 value.\<close>

lemma round64_representable:
  assumes "representable y"
  shows "round64 y = y"
  using round64_nearest [OF assms, of y] by simp

lemma round64_le:
  assumes "representable y" and "x \<le> y"
  shows "round64 x \<le> y"
  using round64_nearest [OF assms(1), of x] assms(2) by linarith

lemma round64_ge:
  assumes "representable y" and "y \<le> x"
  shows "y \<le> round64 x"
  using round64_nearest [OF assms(1), of x] assms(2) by linarith

text \<open>Integers up to \<open>2^53\<close>, and 53-bit integers scaled by a power of two, are float64 values.\<close>

lemma representable_int:
  assumes "\<bar>i\<bar> \<le> 2 ^ 53"
  shows "representable (of_int i)"
proof (cases "\<bar>i\<bar> < 2 ^ 53")
  case True
  have "(of_int i :: rat) = of_int i * 2 powi 0" by simp
  with True show ?thesis unfolding representable_def by blast
next
  case False
  with assms have "i = 2 ^ 53 \<or> i = - (2 ^ 53)" by linarith
  then have "(of_int i :: rat) = of_int 1 * 2 powi 53 \<or> (of_int i :: rat) = of_int (- 1) * 2 powi 53"
    by auto
  moreover have "\<bar>1 :: int\<bar> < 2 ^ 53" "\<bar>- 1 :: int\<bar> < 2 ^ 53" by simp_all
  ultimately show ?thesis unfolding representable_def by blast
qed

lemma representable_eighths:
  assumes "\<bar>m\<bar> < 2 ^ 53"
  shows "representable (of_int m / 8)"
proof -
  have "(of_int m :: rat) / 8 = of_int m * 2 powi (- 3)" by simp
  with assms show ?thesis unfolding representable_def by blast
qed

lemma representable_shifted:
  assumes "\<bar>m\<bar> < 2 ^ 53"
  shows "representable (of_int m * 2 ^ n)"
proof -
  have "(of_int m :: rat) * 2 ^ n = of_int m * 2 powi int n" by simp
  with assms show ?thesis unfolding representable_def by blast
qed

lemma float64_exact: "\<bar>i\<bar> \<le> 2 ^ 53 \<Longrightarrow> float64 i = of_int i"
  by (simp add: float64_def round64_representable representable_int)

section \<open>Properties of the watch conditions\<close>

text \<open>The float64 constant \<open>0.6\<close> lies \<open>1 / (5 * 2^53)\<close> below three fifths.\<close>

lemma WatchPercentageRequired_value:
  "WatchPercentageRequired = 5404319552844595 / 9007199254740992"
  by code_simp

lemma round64_1000: "round64 1000 = 1000"
  using round64_representable [OF representable_int [of 1000]] by simp

text \<open>
  Up to \<open>2^50\<close> the rounded product with \<open>0.6\<close> stays strictly above the integer below
  three fifths of \<open>s\<close> rounded up, and at most that integer: \<open>math.Ceil\<close> returns it.
\<close>

lemma ceil_fmul_percentage:
  assumes "0 \<le> s" and "s < 2 ^ 50"
  shows "math_Ceil (fmul (of_int s) WatchPercentageRequired) = of_int ((3 * s + 4) div 5)"
proof -
  define m where "m = (3 * s + 4) div 5"
  define x :: rat where "x = of_int s * WatchPercentageRequired"
  have m1: "3 * s \<le> 5 * m" and m2: "5 * m \<le> 3 * s + 4"
    unfolding m_def by linarith+
  have mb: "0 \<le> m" "m < 2 ^ 50" using m1 m2 assms by linarith+
  have x_eq: "x = (of_int (3 * s) - of_int s / 2 ^ 53) / 5"
    by (simp add: x_def WatchPercentageRequired_value field_simps)
  have s0: "(0::rat) \<le> of_int s" and s1: "(of_int s :: rat) < 2 ^ 50"
    using assms of_int_less_iff [of s "2 ^ 50", where 'a = rat] by simp_all
  have r1: "(of_int (3 * s) :: rat) \<le> of_int (5 * m)" 
    using m1 by (simp only: of_int_le_iff)
  have r2: "(of_int (5 * m) :: rat) \<le> of_int (3 * s + 4)"
    using m2 by (simp only: of_int_le_iff)
  have frac: "(of_int s :: rat) / 2 ^ 53 \<le> 1 / 8" "(0 :: rat) \<le> of_int s / 2 ^ 53"
    using s0 s1 by simp_all
  have up: "x \<le> of_int m"
    using r1 frac(2) by (simp add: x_eq)
  have lo: "of_int (8 * m - 7) / 8 \<le> x"
    using r2 frac(1) by (simp add: x_eq)
  have "representable (of_int m)"
    using mb by (intro representable_int) simp
  then have a: "round64 x \<le> of_int m"
    using up by (rule round64_le)
  have "representable (of_int (8 * m - 7) / 8)"
    using mb by (intro representable_eighths) simp
  then have "of_int (8 * m - 7) / 8 \<le> round64 x"
    using lo by (rule round64_ge)
  then have b: "of_int m - 1 < round64 x"
    by simp
  have "\<lceil>round64 x\<rceil> = m"
    using a b by (intro ceiling_unique) simp_all
  then show ?thesis
    by (simp add: math_Ceil_def fmul_def x_def m_def)
qed

text \<open>Three fifths rounded up, in integer arithmetic.\<close>

lemma ceiling_three_fifths: "\<lceil>of_int s * (6 / 10 :: rat)\<rceil> = (3 * s + 4) div 5"
proof -
  define m where "m = (3 * s + 4) div 5"
  have m1: "3 * s \<le> 5 * m" and m2: "5 * m \<le> 3 * s + 4"
    unfolding m_def by linarith+
  have r1: "(of_int (3 * s) :: rat) \<le> of_int (5 * m)"
    using m1 by (simp only: of_int_le_iff)
  have r2: "(of_int (5 * m) :: rat) \<le> of_int (3 * s + 4)"
    using m2 by (simp only: of_int_le_iff)
  have "\<lceil>of_int s * (6 / 10 :: rat)\<rceil> = m"
    using r1 r2 by (intro ceiling_unique) simp_all
  then show ?thesis by (simp add: m_def)
qed

text \<open>\<open>Duration.Milliseconds\<close> and \<open>time.Since\<close> stay within fixed bounds.\<close>

lemma Milliseconds_eq:
  "Milliseconds d = (if 0 \<le> d then d div 1000000 else - ((- d) div 1000000))"
  by (auto simp add: Milliseconds_def go_div_def sgn_if)

lemma time_Since_range: "- (2 ^ 63) \<le> time_Since now t \<and> time_Since now t < 2 ^ 63"
  by (simp add: time_Since_def minDuration_def maxDuration_def)

lemma Milliseconds_range:
  assumes "- (2 ^ 63) \<le> d" and "d < 2 ^ 63"
  shows "- 9223372036854 \<le> Milliseconds d \<and> Milliseconds d \<le> 9223372036854"
  using assms unfolding Milliseconds_eq by (simp split: if_splits) linarith

lemma Milliseconds_lower:
  assumes "- (2 ^ 62) \<le> d"
  shows "- 4611686018427 \<le> Milliseconds d"
  using assms unfolding Milliseconds_eq by (simp split: if_splits) linarith

text \<open>On integers of at most 53 bits every step of the computation is exact.\<close>

lemma math_Max_of_int: "math_Max 0 (of_int k) = of_int (max 0 k)"
  by (simp add: math_Max_def max_def)

lemma to_integer_of_int: "to_integer (of_int k) = k"
  by (simp add: to_integer_def)

lemma fsub_exact:
  assumes "\<bar>a - b\<bar> \<le> 2 ^ 53"
  shows "fsub (of_int a) (of_int b) = of_int (a - b)"
  using round64_representable [OF representable_int [OF assms]] by (simp add: fsub_def)

lemma fmul_1000_exact:
  assumes "\<bar>d\<bar> \<le> 2 ^ 31"
  shows "fmul (of_int d) (round64 1000) = of_int (d * 1000)"
proof -
  have "\<bar>d * 1000\<bar> \<le> 2 ^ 53" using assms by (simp add: abs_mult)
  from round64_representable [OF representable_int [OF this]]
  show ?thesis by (simp add: fmul_def round64_1000)
qed

lemma wrap_int64_id: "0 \<le> n \<Longrightarrow> n < 2 ^ 63 \<Longrightarrow> wrap_int64 n = n"
  by (simp add: wrap_int64_def)

text \<open>
  The result in integer arithmetic, for sizes below \<open>2^50\<close> bytes and byte counts below
  \<open>2^53\<close>.
\<close>

lemma calculateWatchConditions_exact:
  assumes "0 \<le> SizeBytes v" and "SizeBytes v < 2 ^ 50"
    and "0 \<le> DurationSecs v" and "DurationSecs v < 2 ^ 31"
    and "0 \<le> BytesStreamed watch" and "BytesStreamed watch < 2 ^ 53"
  shows "calculateWatchConditions now watch v =
     \<lparr>RemainingBytes = max 0 ((3 * SizeBytes v + 4) div 5 - BytesStreamed watch),
      RemainingTime =
        wrap_int64
          (max 0 (600 * DurationSecs v - Milliseconds (time_Since now (StartedAt watch)))
           * Millisecond)\<rparr>"
proof -
  define mB where "mB = (3 * SizeBytes v + 4) div 5"
  define em where "em = Milliseconds (time_Since now (StartedAt watch))"
  have mBr: "0 \<le> mB" "mB < 2 ^ 50"
    using assms(1,2) unfolding mB_def by linarith+
  have minB: "math_Ceil (fmul (float64 (SizeBytes v)) WatchPercentageRequired) = of_int mB"
    using assms(1,2) by (simp add: float64_exact ceil_fmul_percentage mB_def)
  have fb: "float64 (BytesStreamed watch) = of_int (BytesStreamed watch)"
    using assms(5,6) by (simp add: float64_exact)
  have subB: "fsub (of_int mB) (of_int (BytesStreamed watch)) = of_int (mB - BytesStreamed watch)"
    using mBr assms(5,6) by (intro fsub_exact) simp
  have bytes: "to_integer (math_Max 0 (fsub (math_Ceil (fmul (float64 (SizeBytes v)) WatchPercentageRequired))
                  (float64 (BytesStreamed watch)))) = max 0 (mB - BytesStreamed watch)"
    by (simp only: minB fb subB math_Max_of_int to_integer_of_int)
  have fd: "float64 (DurationSecs v) = of_int (DurationSecs v)"
    using assms(3,4) by (simp add: float64_exact)
  have d1000: "fmul (of_int (DurationSecs v)) (round64 1000) = of_int (DurationSecs v * 1000)"
    using assms(3,4) by (intro fmul_1000_exact) simp
  have "math_Ceil (fmul (of_int (DurationSecs v * 1000)) WatchPercentageRequired)
          = of_int ((3 * (DurationSecs v * 1000) + 4) div 5)"
    using assms(3,4) by (intro ceil_fmul_percentage) simp_all
  moreover have "(3 * (DurationSecs v * 1000) + 4) div 5 = 600 * DurationSecs v"
    by linarith
  ultimately have minT: "math_Ceil (fmul (fmul (float64 (DurationSecs v)) (round64 1000))
                           WatchPercentageRequired) = of_int (600 * DurationSecs v)"
    by (simp only: fd d1000)
  have emr: "- 9223372036854 \<le> em" "em \<le> 9223372036854"
    using Milliseconds_range [of "time_Since now (StartedAt watch)"]
      time_Since_range [of now "StartedAt watch"]
    by (simp_all add: em_def)
  have fe: "float64 em = of_int em"
    using emr by (intro float64_exact) simp
  have subT: "fsub (of_int (600 * DurationSecs v)) (of_int em) = of_int (600 * DurationSecs v - em)"
    using emr assms(3,4) by (intro fsub_exact) simp
  have ms: "to_integer (math_Max 0 (fsub (math_Ceil (fmul (fmul (float64 (DurationSecs v)) (round64 1000))
                           WatchPercentageRequired)) (float64 em))) = max 0 (600 * DurationSecs v - em)"
    by (simp only: minT fe subT math_Max_of_int to_integer_of_int)
  show ?thesis
    unfolding calculateWatchConditions_def Let_def
    by (simp only: bytes ms flip: em_def mB_def)
qed

text \<open>
  When the session did not start more than \<open>2^62\<close> nanoseconds after \<open>now\<close>, the
  multiplication by \<open>time.Millisecond\<close> does not wrap.
\<close>

lemma remaining_time_no_wrap:
  assumes "0 \<le> d" and "d < 2 ^ 31" and "- (2 ^ 62) \<le> now - t"
  shows "wrap_int64 (max 0 (600 * d - Milliseconds (time_Since now t)) * Millisecond)
           = max 0 (600 * d - Milliseconds (time_Since now t)) * 1000000"
proof -
  define em where "em = Milliseconds (time_Since now t)"
  have since: "- (2 ^ 62) \<le> time_Since now t"
    using assms(3) by (simp add: time_Since_def minDuration_def maxDuration_def)
  have emr: "- 4611686018427 \<le> em"
    using Milliseconds_lower [OF since] by (simp add: em_def)
  define n where "n = max 0 (600 * d - em)"
  have "d < 2147483648"
    using assms(2) by simp
  then have n0: "0 \<le> n" and n1: "n \<le> 5900176206627"
    using emr assms(1) unfolding n_def by linarith+
  have "0 \<le> n * 1000000" and "n * 1000000 < 2 ^ 63"
    using n0 n1 by simp_all
  then have "wrap_int64 (n * Millisecond) = n * 1000000"
    unfolding Millisecond_def by (rule wrap_int64_id)
  then show ?thesis
    by (simp only: n_def em_def)
qed

text \<open>
  For all operands of the source's integer types the two conversions from float64 stay
  inside their target types.
\<close>

lemma float64_bounds:
  assumes "- (2 ^ 63) \<le> i" and "i \<le> 2 ^ 63"
  shows "- (2 ^ 63) \<le> float64 i \<and> float64 i \<le> 2 ^ 63"
proof -
  have r1: "representable (2 ^ 63)"
    using representable_shifted [of 1 63] by simp
  have r2: "representable (- (2 ^ 63))"
    using representable_shifted [of "- 1" 63] by simp
  have "(of_int (- (2 ^ 63)) :: rat) \<le> of_int i" "(of_int i :: rat) \<le> of_int (2 ^ 63)"
    using assms by (simp_all only: of_int_le_iff)
  then have "- (2 ^ 63) \<le> (of_int i :: rat)" "(of_int i :: rat) \<le> 2 ^ 63"
    by simp_all
  then show ?thesis
    using round64_le [OF r1] round64_ge [OF r2] by (simp add: float64_def)
qed

lemma to_integer_Max_bounds:
  assumes "z \<le> of_int k" and "0 \<le> k"
  shows "0 \<le> to_integer (math_Max 0 z) \<and> to_integer (math_Max 0 z) \<le> k"
  using assms by (auto simp add: to_integer_def math_Max_def floor_le_iff le_floor_iff) 

lemma remaining_bytes_in_range:
  assumes "- (2 ^ 63) \<le> size_bytes" and "size_bytes < 2 ^ 63"
    and "- (2 ^ 63) \<le> streamed" and "streamed < 2 ^ 63"
  shows "0 \<le> to_integer (math_Max 0
            (fsub (math_Ceil (fmul (float64 size_bytes) WatchPercentageRequired))
                  (float64 streamed)))
         \<and> to_integer (math_Max 0
            (fsub (math_Ceil (fmul (float64 size_bytes) WatchPercentageRequired))
                  (float64 streamed))) < 2 ^ 64"
proof -
  define fs where "fs = float64 size_bytes"
  define fb where "fb = float64 streamed"
  define minB where "minB = math_Ceil (fmul fs WatchPercentageRequired)"
  have fs: "fs \<le> 2 ^ 63"
    using float64_bounds [of size_bytes] assms(1,2) by (simp add: fs_def)
  have fb: "- (2 ^ 63) \<le> fb"
    using float64_bounds [of streamed] assms(3,4) by (simp add: fb_def)
  have "fs * WatchPercentageRequired \<le> 2 ^ 63 * (5404319552844595 / 9007199254740992)"
    using fs unfolding WatchPercentageRequired_value by (intro mult_right_mono) simp_all
  then have x: "fs * WatchPercentageRequired \<le> of_int 5 * 2 ^ 60"
    by simp
  have "representable (of_int 5 * 2 ^ 60)"
    by (intro representable_shifted) simp
  then have p: "fmul fs WatchPercentageRequired \<le> of_int 5 * 2 ^ 60"
    unfolding fmul_def using x by (rule round64_le)
  have "\<lceil>fmul fs WatchPercentageRequired\<rceil> \<le> 5 * 2 ^ 60"
    using p by (simp add: ceiling_le_iff)
  then have "(of_int \<lceil>fmul fs WatchPercentageRequired\<rceil> :: rat) \<le> of_int (5 * 2 ^ 60)"
    by (simp only: of_int_le_iff)
  then have mb: "minB \<le> 5 * 2 ^ 60"
    by (simp add: minB_def math_Ceil_def)
  have d: "minB - fb \<le> of_int 13 * 2 ^ 60"
    using mb fb by simp
  have "representable (of_int 13 * 2 ^ 60)"
    by (intro representable_shifted) simp
  then have "fsub minB fb \<le> of_int 13 * 2 ^ 60"
    unfolding fsub_def using d by (rule round64_le)
  then have "fsub minB fb \<le> of_int (13 * 2 ^ 60)"
    by simp
  from to_integer_Max_bounds [OF this]
  have "0 \<le> to_integer (math_Max 0 (fsub minB fb))"
    and "to_integer (math_Max 0 (fsub minB fb)) \<le> 13 * 2 ^ 60"
    by simp_all
  then show ?thesis
    by (simp add: minB_def fs_def fb_def)
qed

lemma minimum_time_bounds:
  assumes "- (2 ^ 31) \<le> d" and "d < 2 ^ 31"
  shows "\<exists>k. math_Ceil (fmul (fmul (float64 d) (round64 1000)) WatchPercentageRequired) = of_int k
             \<and> - (2 ^ 41) \<le> k \<and> k \<le> 2 ^ 41"
proof -
  have fd: "float64 d = of_int d"
    using assms by (intro float64_exact) simp
  have d1000: "fmul (of_int d) (round64 1000) = of_int (d * 1000)"
    using assms by (intro fmul_1000_exact) simp
  define x :: rat where "x = of_int (d * 1000) * WatchPercentageRequired"
  have b: "- (2 ^ 41) \<le> d * 1000" "d * 1000 \<le> 2 ^ 41"
    using assms by simp_all
  then have "(of_int (- (2 ^ 41)) :: rat) \<le> of_int (d * 1000)"
    and "(of_int (d * 1000) :: rat) \<le> of_int (2 ^ 41)"
    by (simp_all only: of_int_le_iff)
  then have ab: "\<bar>of_int (d * 1000) :: rat\<bar> \<le> 2 ^ 41"
    by simp
  have "\<bar>x\<bar> \<le> 2 ^ 41 * 1"
    unfolding x_def abs_mult using ab
    by (intro mult_mono) (simp_all add: WatchPercentageRequired_value)
  then have xb: "of_int (- (2 ^ 41)) \<le> x" "x \<le> of_int (2 ^ 41)"
    by simp_all
  have "representable (of_int (2 ^ 41))" "representable (of_int (- (2 ^ 41)))"
    by (intro representable_int; simp)+
  then have "round64 x \<le> of_int (2 ^ 41)" "of_int (- (2 ^ 41)) \<le> round64 x"
    using xb round64_le round64_ge by blast+
  then have "\<lceil>round64 x\<rceil> \<le> 2 ^ 41" "- (2 ^ 41) \<le> \<lceil>round64 x\<rceil>"
    by (simp_all add: ceiling_le_iff le_ceiling_iff)
  moreover have "fmul (fmul (float64 d) (round64 1000)) WatchPercentageRequired = round64 x"
  proof -
    have "fmul (fmul (float64 d) (round64 1000)) WatchPercentageRequired
            = fmul (of_int (d * 1000)) WatchPercentageRequired"
      by (simp only: fd d1000)
    then show ?thesis by (simp add: fmul_def x_def)
  qed
  ultimately show ?thesis
    by (simp add: math_Ceil_def)
qed

lemma remaining_time_in_range:
  assumes "- (2 ^ 31) \<le> d" and "d < 2 ^ 31"
  shows "\<exists>n. to_integer (math_Max 0
            (fsub (math_Ceil (fmul (fmul (float64 d) (round64 1000)) WatchPercentageRequired))
                  (float64 (Milliseconds (time_Since now t))))) = n
             \<and> 0 \<le> n \<and> n < 2 ^ 63
             \<and> (- (2 ^ 62) \<le> now - t \<longrightarrow> n \<le> 6810709273979)"
proof -
  define em where "em = Milliseconds (time_Since now t)"
  from minimum_time_bounds [OF assms] obtain k where
    k: "math_Ceil (fmul (fmul (float64 d) (round64 1000)) WatchPercentageRequired) = of_int k"
    and kb: "- (2 ^ 41) \<le> k" "k \<le> 2 ^ 41"
    by blast
  have kn: "- 2199023255552 \<le> k" "k \<le> 2199023255552"
    using kb by simp_all
  have emr: "- 9223372036854 \<le> em" "em \<le> 9223372036854"
    using Milliseconds_range [of "time_Since now t"] time_Since_range [of now t]
    by (simp_all add: em_def)
  have fe: "float64 em = of_int em"
    using emr by (intro float64_exact) simp
  have "\<bar>k - em\<bar> \<le> 11422395292406"
    using kn emr by linarith
  then have "\<bar>k - em\<bar> \<le> 2 ^ 53"
    by simp
  then have sub: "fsub (of_int k) (of_int em) = of_int (k - em)"
    by (rule fsub_exact)
  define n where "n = max 0 (k - em)"
  have val: "to_integer (math_Max 0
            (fsub (math_Ceil (fmul (fmul (float64 d) (round64 1000)) WatchPercentageRequired))
                  (float64 em))) = n"
    by (simp only: k fe sub math_Max_of_int to_integer_of_int n_def)
  have n0: "0 \<le> n" and n1: "n \<le> 11422395292406"
    using kn emr unfolding n_def by linarith+
  have n2: "n \<le> 6810709273979" if "- (2 ^ 62) \<le> now - t"
  proof -
    have "- (2 ^ 62) \<le> time_Since now t"
      using that by (simp add: time_Since_def minDuration_def maxDuration_def)
    from Milliseconds_lower [OF this] have "- 4611686018427 \<le> em"
      by (simp add: em_def)
    then show ?thesis
      using kn unfolding n_def by linarith
  qed
  have "n < 2 ^ 63"
    using n1 by simp
  then show ?thesis
    using val n0 n2 unfolding em_def by blast
qed

text \<open>
  Claim C8. For every size, duration and byte count of the source's integer types
  (negative ones, zero sizes and byte counts above the minimum included), and every
  session the program can hold, neither result is negative. \<open>StartedAt\<close> is only ever
  written from \<open>time.Now()\<close> (lines 54 and 67) and compared with a later reading of the
  clock, so a session starts at or before \<open>now\<close>; the hypothesis asks less, that it did
  not start more than \<open>2^62\<close> nanoseconds (about 146 years) after \<open>now\<close>, which leaves
  room for any adjustment of the clock.
\<close>

theorem calculateWatchConditions_nonnegative:
  assumes "- (2 ^ 63) \<le> SizeBytes v" and "SizeBytes v < 2 ^ 63"
    and "- (2 ^ 31) \<le> DurationSecs v" and "DurationSecs v < 2 ^ 31"
    and "- (2 ^ 63) \<le> BytesStreamed watch" and "BytesStreamed watch < 2 ^ 63"
    and "- (2 ^ 62) \<le> now - StartedAt watch"
  shows "0 \<le> RemainingBytes (calculateWatchConditions now watch v)
         \<and> 0 \<le> RemainingTime (calculateWatchConditions now watch v)"
proof -
  have b: "0 \<le> RemainingBytes (calculateWatchConditions now watch v)"
    using remaining_bytes_in_range [OF assms(1,2,5,6)]
    by (simp add: calculateWatchConditions_def Let_def)
  from remaining_time_in_range [OF assms(3,4), of now "StartedAt watch"] assms(7)
  obtain n where n: "to_integer (math_Max 0
            (fsub (math_Ceil (fmul (fmul (float64 (DurationSecs v)) (round64 1000))
                                   WatchPercentageRequired))
                  (float64 (Milliseconds (time_Since now (StartedAt watch)))))) = n"
    and n0: "0 \<le> n" and n1: "n \<le> 6810709273979"
    by blast
  have "0 \<le> n * 1000000" and "n * 1000000 < 2 ^ 63"
    using n0 n1 by simp_all
  then have "wrap_int64 (n * Millisecond) = n * 1000000"
    unfolding Millisecond_def by (rule wrap_int64_id)
  then have "RemainingTime (calculateWatchConditions now watch v) = n * 1000000"
    by (simp add: calculateWatchConditions_def Let_def n)
  then show ?thesis
    using b n0 by simp
qed

text \<open>A video of size zero, and a session that has streamed 700 bytes of it.\<close>

theorem calculateWatchConditions_nonnegative_witness:
  "- (2 ^ 62) \<le> 61000000000 - StartedAt example_watch
   \<and> 0 \<le> RemainingBytes (calculateWatchConditions 61000000000 example_watch
                          (watched_video\<lparr>SizeBytes := 0\<rparr>))
   \<and> 0 \<le> RemainingTime (calculateWatchConditions 61000000000 example_watch
                            (watched_video\<lparr>SizeBytes := 0\<rparr>))
   \<and> BytesStreamed example_watch = 700 \<and> StartedAt example_watch = 0"
proof -
  have "0 \<le> RemainingBytes (calculateWatchConditions 61000000000 example_watch
                          (watched_video\<lparr>SizeBytes := 0\<rparr>))
   \<and> 0 \<le> RemainingTime (calculateWatchConditions 61000000000 example_watch
                            (watched_video\<lparr>SizeBytes := 0\<rparr>))"
    by (rule calculateWatchConditions_nonnegative)
       (simp_all add: watched_video_def example_video_def example_watch_def)
  then show ?thesis
    by (simp add: example_watch_def)
qed

text \<open>
  The bound on the start time cannot be dropped. For a start \<open>2^63\<close> nanoseconds (292
  years) after \<open>now\<close>, \<open>time.Since\<close> returns the smallest duration, 600 ms remain of a
  one-second video on top of 9223372036854 ms, and the product with \<open>time.Millisecond\<close>
  wraps around to a negative duration. No call of the program holds such a session.
\<close>

lemma remaining_time_wraps_for_distant_start:
  "RemainingTime (calculateWatchConditions 0 (example_watch\<lparr>StartedAt := 2 ^ 63\<rparr>)
                    (watched_video\<lparr>DurationSecs := 1\<rparr>))
     = - 9223372036255551616"
  by code_simp

text \<open>
  Claim C2, as the code has it. For sizes below \<open>2^50\<close> bytes, durations of at most
  \<open>2^31 - 1\<close> seconds, byte counts below \<open>2^53\<close> and a session that did not start more than
  \<open>2^62\<close> nanoseconds after \<open>now\<close>: the remaining bytes are three fifths of the size,
  rounded up, less the bytes streamed, and not below zero; the remaining time, a
  duration of whole milliseconds, is three fifths of the duration in milliseconds,
  rounded up, less the milliseconds elapsed, and not below zero.
\<close>

theorem calculateWatchConditions_formula:
  assumes "0 \<le> SizeBytes v" and "SizeBytes v < 2 ^ 50"
    and "0 \<le> DurationSecs v" and "DurationSecs v < 2 ^ 31"
    and "0 \<le> BytesStreamed watch" and "BytesStreamed watch < 2 ^ 53"
    and "- (2 ^ 62) \<le> now - StartedAt watch"
  shows "RemainingBytes (calculateWatchConditions now watch v)
           = max 0 (\<lceil>of_int (SizeBytes v) * (6 / 10 :: rat)\<rceil> - BytesStreamed watch)
         \<and> Milliseconds (RemainingTime (calculateWatchConditions now watch v))
           = max 0 (\<lceil>of_int (DurationSecs v) * 1000 * (6 / 10 :: rat)\<rceil>
                    - Milliseconds (time_Since now (StartedAt watch)))
         \<and> RemainingTime (calculateWatchConditions now watch v)
           = Milliseconds (RemainingTime (calculateWatchConditions now watch v)) * Millisecond"
proof -
  have "\<lceil>of_int (DurationSecs v * 1000) * (6 / 10 :: rat)\<rceil> = (3 * (DurationSecs v * 1000) + 4) div 5"
    by (rule ceiling_three_fifths)
  moreover have "(3 * (DurationSecs v * 1000) + 4) div 5 = 600 * DurationSecs v"
    by linarith
  ultimately have t: "\<lceil>of_int (DurationSecs v) * 1000 * (6 / 10 :: rat)\<rceil> = 600 * DurationSecs v"
    by simp
  define n where "n = max 0 (600 * DurationSecs v - Milliseconds (time_Since now (StartedAt watch)))"
  have n0: "0 \<le> n" by (simp add: n_def)
  have ms: "Milliseconds (n * 1000000) = n"
    using n0 by (simp add: Milliseconds_eq)
  have c: "calculateWatchConditions now watch v =
     \<lparr>RemainingBytes = max 0 ((3 * SizeBytes v + 4) div 5 - BytesStreamed watch),
      RemainingTime = n * 1000000\<rparr>"
    using calculateWatchConditions_exact [OF assms(1-6), of now]
      remaining_time_no_wrap [OF assms(3,4,7)]
    by (simp add: n_def)
  show ?thesis
    unfolding c ceiling_three_fifths t
    using ms by (simp add: n_def Millisecond_def)
qed

text \<open>The spec's example: 1000 bytes, 100 seconds, 700 bytes streamed, 61000 ms elapsed.\<close>

theorem calculateWatchConditions_formula_witness:
  "SizeBytes watched_video = 1000 \<and> DurationSecs watched_video = 100
   \<and> BytesStreamed example_watch = 700
   \<and> Milliseconds (time_Since 61000000000 (StartedAt example_watch)) = 61000
   \<and> RemainingBytes (calculateWatchConditions 61000000000 example_watch watched_video) = 0
   \<and> RemainingTime (calculateWatchConditions 61000000000 example_watch watched_video) = 0"
proof -
  have v: "SizeBytes watched_video = 1000" "DurationSecs watched_video = 100"
    by (simp_all add: watched_video_def example_video_def)
  have w: "BytesStreamed example_watch = 700" "StartedAt example_watch = 0"
    by (simp_all add: example_watch_def)
  have e: "Milliseconds (time_Since 61000000000 (StartedAt example_watch)) = 61000"
    by (simp add: w Milliseconds_eq time_Since_def minDuration_def maxDuration_def)
  have h: "0 \<le> SizeBytes watched_video" "SizeBytes watched_video < 2 ^ 50"
    "0 \<le> DurationSecs watched_video" "DurationSecs watched_video < 2 ^ 31"
    "0 \<le> BytesStreamed example_watch" "BytesStreamed example_watch < 2 ^ 53"
    "- (2 ^ 62) \<le> 61000000000 - StartedAt example_watch"
    by (simp_all add: v w)
  note t = calculateWatchConditions_formula [OF h]
  from t have "RemainingBytes (calculateWatchConditions 61000000000 example_watch watched_video)
      = max 0 (\<lceil>of_int (SizeBytes watched_video) * (6 / 10 :: rat)\<rceil> - BytesStreamed example_watch)"
    by blast
  then have f1: "RemainingBytes (calculateWatchConditions 61000000000 example_watch watched_video) = 0"
    by (simp add: v w)
  from t have "Milliseconds (RemainingTime (calculateWatchConditions 61000000000 example_watch watched_video))
      = max 0 (\<lceil>of_int (DurationSecs watched_video) * 1000 * (6 / 10 :: rat)\<rceil>
               - Milliseconds (time_Since 61000000000 (StartedAt example_watch)))"
    by blast
  then have f2: "Milliseconds (RemainingTime (calculateWatchConditions 61000000000 example_watch watched_video)) = 0"
    by (simp add: v e)
  from t have f3: "RemainingTime (calculateWatchConditions 61000000000 example_watch watched_video)
         = Milliseconds (RemainingTime (calculateWatchConditions 61000000000 example_watch watched_video)) * Millisecond"
    by blast
  have "RemainingTime (calculateWatchConditions 61000000000 example_watch watched_video) = 0"
    by (subst f3) (simp add: f2)
  then show ?thesis
    using v w e f1 by blast
qed

text \<open>
  Claim C2 as stated covers every size. A size of \<open>2^53 + 1\<close> bytes is not a float64
  value: the conversion rounds it to \<open>2^53\<close>, and the code's minimum is one byte short
  of three fifths of the size rounded up.
\<close>

theorem calculateWatchConditions_large_size_counterexample:
  "RemainingBytes (calculateWatchConditions 0 (example_watch\<lparr>BytesStreamed := 0\<rparr>)
                     (watched_video\<lparr>SizeBytes := 9007199254740993\<rparr>))
     = 5404319552844595
   \<and> max 0 (\<lceil>of_int 9007199254740993 * (6 / 10 :: rat)\<rceil> - 0) = (5404319552844596 :: int)"
  by code_simp

section \<open>Properties of view registration\<close>

text \<open>
  Claim C4. The checks of a still-watching poll come in a fixed order. An entry for the
  session's view identifier gives the duplicate error and leaves the ledger alone.
  Without one, a positive remaining time gives the message with the remaining
  milliseconds, whatever the remaining bytes are; otherwise positive remaining bytes
  give the message with the remaining bytes; otherwise the entry is inserted and the
  response is 204. The ledger changes in the last case only.
\<close>

theorem TryAddView_check_order:
  "(let (result, ledger') = TryAddView now watch v ledger;
        conditions = calculateWatchConditions now watch v
    in ((Id' v, ViewId watch) \<in> ledger \<longrightarrow>
          Code result = ADD_VIEW_DUPLICATE \<and> ledger' = ledger
          \<and> StillWatching (Inr result) = UserError errVideoViewAlreadyCounted)
       \<and> ((Id' v, ViewId watch) \<notin> ledger \<and> 0 < RemainingTime conditions \<longrightarrow>
          Code result = ADD_VIEW_TIME_NOT_PASSED
          \<and> TimeLeftMs result = Milliseconds (RemainingTime conditions)
          \<and> ledger' = ledger
          \<and> StillWatching (Inr result)
              = ValidationError (NeedWatchAnotherMs (Milliseconds (RemainingTime conditions))))
       \<and> ((Id' v, ViewId watch) \<notin> ledger \<and> RemainingTime conditions \<le> 0
           \<and> 0 < RemainingBytes conditions \<longrightarrow>
          Code result = ADD_VIEW_VIDEO_NOT_STREAMED_ENOUGH
          \<and> BytesLeft result = RemainingBytes conditions
          \<and> ledger' = ledger
          \<and> StillWatching (Inr result)
              = ValidationError (NeedStreamAnotherBytes (RemainingBytes conditions)))
       \<and> ((Id' v, ViewId watch) \<notin> ledger \<and> RemainingTime conditions \<le> 0
           \<and> RemainingBytes conditions \<le> 0 \<longrightarrow>
          Code result = ADD_VIEW_SUCCESS
          \<and> ledger' = insert (Id' v, ViewId watch) ledger
          \<and> StillWatching (Inr result) = StatusNoContent))"
  by (simp add: TryAddView_def StillWatching_def Let_def)

text \<open>The watch conditions of the spec's examples.\<close>

lemma example_conditions:
  "calculateWatchConditions 61000000000 (example_watch\<lparr>BytesStreamed := 500\<rparr>) watched_video
     = \<lparr>RemainingBytes = 100, RemainingTime = 0\<rparr>"
  "calculateWatchConditions 1000000000 (example_watch\<lparr>BytesStreamed := 500\<rparr>) watched_video
     = \<lparr>RemainingBytes = 100, RemainingTime = 59000000000\<rparr>"
  "calculateWatchConditions 61000000000 example_watch watched_video
     = \<lparr>RemainingBytes = 0, RemainingTime = 0\<rparr>"
  by code_simp+

text \<open>
  500 of the 600 bytes needed, after 61000 ms: 100 more bytes. The same after 1000 ms,
  with time and bytes both outstanding: 59000 more milliseconds.
\<close>

theorem TryAddView_check_order_witness:
  "(Id' watched_video, ViewId (example_watch\<lparr>BytesStreamed := 500\<rparr>)) \<notin> {}
   \<and> RemainingTime (calculateWatchConditions 61000000000
         (example_watch\<lparr>BytesStreamed := 500\<rparr>) watched_video) = 0
   \<and> RemainingBytes (calculateWatchConditions 61000000000
         (example_watch\<lparr>BytesStreamed := 500\<rparr>) watched_video) = 100
   \<and> StillWatching (Inr (fst (TryAddView 61000000000
         (example_watch\<lparr>BytesStreamed := 500\<rparr>) watched_video {})))
       = ValidationError (NeedStreamAnotherBytes 100)
   \<and> snd (TryAddView 61000000000 (example_watch\<lparr>BytesStreamed := 500\<rparr>) watched_video {}) = {}
   \<and> StillWatching (Inr (fst (TryAddView 1000000000
         (example_watch\<lparr>BytesStreamed := 500\<rparr>) watched_video {})))
       = ValidationError (NeedWatchAnotherMs 59000)"
proof -
  have m: "Milliseconds 59000000000 = 59000"
    by (simp add: Milliseconds_eq)
  note t1 = TryAddView_check_order [of 61000000000 "example_watch\<lparr>BytesStreamed := 500\<rparr>"
      watched_video "{}", unfolded example_conditions Let_def split_beta]
  note t2 = TryAddView_check_order [of 1000000000 "example_watch\<lparr>BytesStreamed := 500\<rparr>"
      watched_video "{}", unfolded example_conditions Let_def split_beta]
  show ?thesis
    using t1 t2 by (simp add: example_conditions m)
qed

text \<open>Once the entry is in the ledger, every poll of that view identifier is a duplicate.\<close>

lemma poll_all_duplicates:
  assumes "(Id' v, view) \<in> ledger" and "\<forall>(t, w) \<in> set ps. ViewId w = view"
  shows "poll_all ps v ledger
           = (replicate (length ps) (UserError errVideoViewAlreadyCounted), ledger)"
  using assms
proof (induction ps)
  case Nil
  then show ?case by simp
next
  case (Cons p ps)
  obtain t w where p: "p = (t, w)" by (cases p)
  with Cons.prems have w: "ViewId w = view" and rest: "\<forall>(t, w) \<in> set ps. ViewId w = view"
    by auto
  have "TryAddView t w v ledger
          = (\<lparr>Code = ADD_VIEW_DUPLICATE, TimeLeftMs = 0, BytesLeft = 0\<rparr>, ledger)"
    using Cons.prems(1) w by (simp add: TryAddView_def)
  then show ?case
    using Cons.IH [OF Cons.prems(1) rest] by (simp add: p StillWatching_def)
qed

text \<open>
  Claim C1. Take a session with no view counted yet whose threshold is crossed when a
  poll arrives: nothing remains of time or bytes. That poll succeeds and inserts the
  ledger entry; every later poll of the session, at whatever time and with whatever
  byte count, is answered with the duplicate error: exactly one response is the 204 of
  a counted view, and the ledger after all the polls is the ledger after the first.
\<close>

theorem poll_all_counts_once:
  assumes "(Id' v, ViewId watch) \<notin> ledger"
    and "RemainingTime (calculateWatchConditions now watch v) = 0"
    and "RemainingBytes (calculateWatchConditions now watch v) = 0"
    and "\<forall>(t, w) \<in> set ps. ViewId w = ViewId watch"
  shows "poll_all ((now, watch) # ps) v ledger
           = (StatusNoContent # replicate (length ps) (UserError errVideoViewAlreadyCounted),
              insert (Id' v, ViewId watch) ledger)
         \<and> count_list (fst (poll_all ((now, watch) # ps) v ledger)) StatusNoContent = 1
         \<and> snd (TryAddView now watch v ledger) = insert (Id' v, ViewId watch) ledger"
proof -
  have none: "count_list (replicate n (UserError errVideoViewAlreadyCounted)) StatusNoContent = 0"
    for n
    by (induction n) simp_all
  have first: "TryAddView now watch v ledger
          = (\<lparr>Code = ADD_VIEW_SUCCESS, TimeLeftMs = 0, BytesLeft = 0\<rparr>,
             insert (Id' v, ViewId watch) ledger)"
    using assms(1,2,3) by (simp add: TryAddView_def Let_def)
  have "(Id' v, ViewId watch) \<in> insert (Id' v, ViewId watch) ledger"
    by simp
  from poll_all_duplicates [OF this assms(4)] first
  show ?thesis
    by (simp add: StillWatching_def none)
qed



text \<open>Three polls of the example session, from 61000 ms on.\<close>

theorem poll_all_counts_once_witness:
  "(Id' watched_video, ViewId example_watch) \<notin> {}
   \<and> RemainingTime (calculateWatchConditions 61000000000 example_watch watched_video) = 0
   \<and> RemainingBytes (calculateWatchConditions 61000000000 example_watch watched_video) = 0
   \<and> poll_all ((61000000000, example_watch) # example_polls) watched_video {}
       = ([StatusNoContent, UserError errVideoViewAlreadyCounted,
           UserError errVideoViewAlreadyCounted], {(7, 42)})"
proof -
  have c: "RemainingTime (calculateWatchConditions 61000000000 example_watch watched_video) = 0"
    "RemainingBytes (calculateWatchConditions 61000000000 example_watch watched_video) = 0"
    by (simp_all add: example_conditions)
  have n: "(Id' watched_video, ViewId example_watch) \<notin> {}"
    by simp
  have p: "\<forall>(t, w) \<in> set example_polls. ViewId w = ViewId example_watch"
    by (simp add: example_polls_def)
  have i: "Id' watched_video = 7" "ViewId example_watch = 42" "length example_polls = 2"
    by (simp_all add: watched_video_def example_video_def example_watch_def example_polls_def)
  show ?thesis
    using c n poll_all_counts_once [OF n c p] by (simp add: i numeral_2_eq_2)
qed

text \<open>
  Before the threshold is crossed a poll counts nothing: the ledger stays as it is and
  the response is not the 204 of a counted view.
\<close>

lemma TryAddView_before_threshold:
  assumes "0 < RemainingTime (calculateWatchConditions now watch v)
           \<or> 0 < RemainingBytes (calculateWatchConditions now watch v)"
  shows "snd (TryAddView now watch v ledger) = ledger
         \<and> StillWatching (Inr (fst (TryAddView now watch v ledger))) \<noteq> StatusNoContent"
  using assms by (auto simp add: TryAddView_def StillWatching_def Let_def)

end
